theory Spec2Isabelle
  imports Complex_Main "HOL-Library.Word"
begin

unbundle bit_operations_syntax

section \<open>The MPU-9150 driver (src/src/mpu9150.cpp)\<close>

text \<open>
  The driver is a C++ class \<^verbatim>\<open>bfs::Mpu9150\<close>. Its member variables become the fields of
  the record \<open>Mpu9150\<close>, its member functions become functions that take the object and
  return the result together with the updated object. Isabelle does not admit names
  that end in an underscore, so \<^verbatim>\<open>accel_scale_\<close> is the field \<open>accel_scale\<close>, the constant
  \<^verbatim>\<open>ACCEL_CONFIG_\<close> is \<open>ACCEL_CONFIG\<close>, and so on.

  C++ \<^verbatim>\<open>float\<close> values are modelled as real numbers: the model keeps every operation of
  the source and the order in which it is applied, and leaves rounding out.
  \<^verbatim>\<open>uint8_t\<close> is \<open>8 word\<close>, \<^verbatim>\<open>int16_t\<close> is \<open>16 word\<close> read with \<open>sint\<close>, \<^verbatim>\<open>size_t\<close> is \<open>nat\<close>.
\<close>

subsection \<open>Constants of mpu9150.h\<close>

text \<open>
  The header mpu9150.h is not part of the sources at hand. The register addresses, bit
  masks, enumerator values and floating-point constants it declares are therefore
  parameters of the model, collected in the record \<open>header\<close>. The enumeration types
  \<^verbatim>\<open>MagMode\<close>, \<^verbatim>\<open>AccelRange\<close>, \<^verbatim>\<open>GyroRange\<close> and \<^verbatim>\<open>DlpfBandwidth\<close> are modelled by their
  underlying byte, so that a value outside the enumerators can be passed, as a C++
  caller can do with a cast.
\<close>

type_synonym MagMode = "8 word"
type_synonym AccelRange = "8 word"
type_synonym GyroRange = "8 word"
type_synonym DlpfBandwidth = "8 word"

record header =
  PWR_MGMNT_1 :: "8 word"
  H_RESET :: "8 word"
  CLKSEL_PLL :: "8 word"
  WHOAMI :: "8 word"
  WHOAMI_MPU9150 :: "8 word"
  INT_PIN_CFG :: "8 word"
  I2C_BYPASS_EN :: "8 word"
  ACCEL_CONFIG :: "8 word"
  GYRO_CONFIG :: "8 word"
  SMPLRT_DIV :: "8 word"
  ACCEL_CONFIG2 :: "8 word"
  CONFIG :: "8 word"
  INT_STATUS :: "8 word"
  RAW_DATA_RDY_INT :: "8 word"
  FIFO_OFLOW_INT :: "8 word"
  FIFO_COUNT_H :: "8 word"
  FIFO_R_W :: "8 word"
  MAG_PASSTHROUGH :: MagMode
  ACCEL_RANGE_2G :: AccelRange
  ACCEL_RANGE_4G :: AccelRange
  ACCEL_RANGE_8G :: AccelRange
  ACCEL_RANGE_16G :: AccelRange
  GYRO_RANGE_250DPS :: GyroRange
  GYRO_RANGE_500DPS :: GyroRange
  GYRO_RANGE_1000DPS :: GyroRange
  GYRO_RANGE_2000DPS :: GyroRange
  DLPF_BANDWIDTH_184HZ :: DlpfBandwidth
  DLPF_BANDWIDTH_92HZ :: DlpfBandwidth
  DLPF_BANDWIDTH_41HZ :: DlpfBandwidth
  DLPF_BANDWIDTH_20HZ :: DlpfBandwidth
  DLPF_BANDWIDTH_10HZ :: DlpfBandwidth
  DLPF_BANDWIDTH_5HZ :: DlpfBandwidth
  TEMP_SCALE :: real
  G_MPS2 :: real
  DEG2RAD :: real

subsection \<open>The transport behind \<^verbatim>\<open>imu_\<close>\<close>

text \<open>
  Modelled from the spec: the class of the member \<^verbatim>\<open>imu_\<close> and the platform function
  \<^verbatim>\<open>delay\<close> are external collaborators, not under src/. The spec (section 6) gives them as
  "write one byte to a device register: success or failure", "read N bytes starting at
  a device register: bytes or failure" and a blocking delay. The model records every
  operation the driver issues, in order, in \<open>issued\<close>, and takes the answer of the device
  to the operation at position \<open>n\<close> of that record from \<open>respond n\<close>. A read succeeds when
  the device answers with exactly the number of bytes asked for.
\<close>

datatype bus_op =
    BusBegin
  | Delay nat
  | WriteReg "8 word" "8 word"
  | ReadRegs "8 word" "8 word"
  | ReadFifoBurst "8 word" "8 word"

datatype reply = Nack | Ack "8 word list"

record InvensenseImu =
  issued :: "bus_op list"
  respond :: "nat \<Rightarrow> reply"

definition issue :: "bus_op \<Rightarrow> InvensenseImu \<Rightarrow> InvensenseImu" where
  "issue op b = b\<lparr>issued := issued b @ [op]\<rparr>"

definition next_reply :: "InvensenseImu \<Rightarrow> reply" where
  "next_reply b = respond b (length (issued b))"

definition write_ok :: "reply \<Rightarrow> bool" where
  "write_ok r = (case r of Nack \<Rightarrow> False | Ack bs \<Rightarrow> True)"

definition read_bytes :: "reply \<Rightarrow> nat \<Rightarrow> 8 word list option" where
  "read_bytes r n =
     (case r of Nack \<Rightarrow> None | Ack bs \<Rightarrow> if length bs = n then Some bs else None)"

definition imu_Begin :: "InvensenseImu \<Rightarrow> InvensenseImu" where
  "imu_Begin b = issue BusBegin b"

definition imu_WriteRegister :: "8 word \<Rightarrow> 8 word \<Rightarrow> InvensenseImu \<Rightarrow> bool \<times> InvensenseImu" where
  "imu_WriteRegister reg data b = (write_ok (next_reply b), issue (WriteReg reg data) b)"

definition imu_ReadRegisters ::
  "8 word \<Rightarrow> 8 word \<Rightarrow> InvensenseImu \<Rightarrow> 8 word list option \<times> InvensenseImu" where
  "imu_ReadRegisters reg count b =
     (read_bytes (next_reply b) (unat count), issue (ReadRegs reg count) b)"

definition imu_ReadFifo ::
  "8 word \<Rightarrow> 8 word \<Rightarrow> InvensenseImu \<Rightarrow> 8 word list option \<times> InvensenseImu" where
  "imu_ReadFifo reg count b =
     (read_bytes (next_reply b) (unat count), issue (ReadFifoBurst reg count) b)"

subsection \<open>The object\<close>

text \<open>
  The member variables are declared in mpu9150.h; their types are taken from the way
  the source uses them: \<^verbatim>\<open>data_buf_\<close> is the 15-byte frame buffer of the spec (section 3),
  the counts are \<^verbatim>\<open>int16_t\<close> (the casts of the source), \<^verbatim>\<open>fifo_count_\<close> is \<^verbatim>\<open>int16_t\<close> and
  \<^verbatim>\<open>bytes_to_read_\<close> holds a \<^verbatim>\<open>size_t\<close> (it is assigned \<^verbatim>\<open>len\<close>). The three-element arrays
  \<^verbatim>\<open>accel_cnts_\<close>, \<^verbatim>\<open>gyro_cnts_\<close>, \<^verbatim>\<open>accel_\<close> and \<^verbatim>\<open>gyro_\<close> are lists; the source always
  assigns their three elements together.
\<close>

record Mpu9150 =
  imu :: InvensenseImu
  mag_mode :: MagMode
  who_am_i :: "8 word"
  accel_range :: AccelRange
  requested_accel_range :: AccelRange
  accel_scale :: real
  requested_accel_scale :: real
  gyro_range :: GyroRange
  requested_gyro_range :: GyroRange
  gyro_scale :: real
  requested_gyro_scale :: real
  dlpf_bandwidth :: DlpfBandwidth
  requested_dlpf :: DlpfBandwidth
  srd :: "8 word"
  new_imu_data :: bool
  data_buf :: "8 word list"
  accel_cnts :: "16 word list"
  gyro_cnts :: "16 word list"
  temp_cnts :: "16 word"
  accel :: "real list"
  gyro :: "real list"
  temp :: real
  fifo_overflowed :: bool
  fifo_count :: "16 word"
  bytes_to_read :: nat

definition data_buf_size :: nat where
  "data_buf_size = 15"

subsection \<open>Register access (lines 430 to 440)\<close>

definition WriteRegister :: "8 word \<Rightarrow> 8 word \<Rightarrow> Mpu9150 \<Rightarrow> bool \<times> Mpu9150" where
  "WriteRegister reg data s =
     (case imu_WriteRegister reg data (imu s) of (ok, b) \<Rightarrow> (ok, s\<lparr>imu := b\<rparr>))"

text \<open>
  \<^verbatim>\<open>ReadRegisters\<close> and the private \<^verbatim>\<open>ReadFifo\<close> get a destination pointer in the source. The
  model returns the bytes read (\<open>None\<close> on failure, when the destination is left as it
  was) and the caller stores them.
\<close>

definition ReadRegisters ::
  "8 word \<Rightarrow> 8 word \<Rightarrow> Mpu9150 \<Rightarrow> 8 word list option \<times> Mpu9150" where
  "ReadRegisters reg count s =
     (case imu_ReadRegisters reg count (imu s) of (r, b) \<Rightarrow> (r, s\<lparr>imu := b\<rparr>))"

definition ReadFifo_burst ::
  "8 word \<Rightarrow> 8 word \<Rightarrow> Mpu9150 \<Rightarrow> 8 word list option \<times> Mpu9150" where
  "ReadFifo_burst reg count s =
     (case imu_ReadFifo reg count (imu s) of (r, b) \<Rightarrow> (r, s\<lparr>imu := b\<rparr>))"

definition delay :: "nat \<Rightarrow> Mpu9150 \<Rightarrow> Mpu9150" where
  "delay ms s = s\<lparr>imu := issue (Delay ms) (imu s)\<rparr>"

subsection \<open>Configuration (lines 130 to 251)\<close>

definition ConfigAccelRange :: "header \<Rightarrow> AccelRange \<Rightarrow> Mpu9150 \<Rightarrow> bool \<times> Mpu9150" where
  "ConfigAccelRange h rng s =
     (case
        (if rng = ACCEL_RANGE_2G h then
           Some (s\<lparr>requested_accel_range := rng, requested_accel_scale := 2 / 32767.5\<rparr>)
         else if rng = ACCEL_RANGE_4G h then
           Some (s\<lparr>requested_accel_range := rng, requested_accel_scale := 4 / 32767.5\<rparr>)
         else if rng = ACCEL_RANGE_8G h then
           Some (s\<lparr>requested_accel_range := rng, requested_accel_scale := 8 / 32767.5\<rparr>)
         else if rng = ACCEL_RANGE_16G h then
           Some (s\<lparr>requested_accel_range := rng, requested_accel_scale := 16 / 32767.5\<rparr>)
         else None)
      of
        None \<Rightarrow> (False, s)
      | Some s1 \<Rightarrow>
          (case WriteRegister (ACCEL_CONFIG h) (requested_accel_range s1) s1 of
             (False, s2) \<Rightarrow> (False, s2)
           | (True, s2) \<Rightarrow>
               (True, s2\<lparr>accel_range := requested_accel_range s2,
                         accel_scale := requested_accel_scale s2\<rparr>)))"

definition ConfigGyroRange :: "header \<Rightarrow> GyroRange \<Rightarrow> Mpu9150 \<Rightarrow> bool \<times> Mpu9150" where
  "ConfigGyroRange h rng s =
     (case
        (if rng = GYRO_RANGE_250DPS h then
           Some (s\<lparr>requested_gyro_range := rng, requested_gyro_scale := 250 / 32767.5\<rparr>)
         else if rng = GYRO_RANGE_500DPS h then
           Some (s\<lparr>requested_gyro_range := rng, requested_gyro_scale := 500 / 32767.5\<rparr>)
         else if rng = GYRO_RANGE_1000DPS h then
           Some (s\<lparr>requested_gyro_range := rng, requested_gyro_scale := 1000 / 32767.5\<rparr>)
         else if rng = GYRO_RANGE_2000DPS h then
           Some (s\<lparr>requested_gyro_range := rng, requested_gyro_scale := 2000 / 32767.5\<rparr>)
         else None)
      of
        None \<Rightarrow> (False, s)
      | Some s1 \<Rightarrow>
          (case WriteRegister (GYRO_CONFIG h) (requested_gyro_range s1) s1 of
             (False, s2) \<Rightarrow> (False, s2)
           | (True, s2) \<Rightarrow>
               (True, s2\<lparr>gyro_range := requested_gyro_range s2,
                         gyro_scale := requested_gyro_scale s2\<rparr>)))"

definition ConfigSrd :: "header \<Rightarrow> 8 word \<Rightarrow> Mpu9150 \<Rightarrow> bool \<times> Mpu9150" where
  "ConfigSrd h srd_in s =
     (case WriteRegister (SMPLRT_DIV h) srd_in s of
        (False, s1) \<Rightarrow> (False, s1)
      | (True, s1) \<Rightarrow> (True, s1\<lparr>srd := srd_in\<rparr>))"

definition ConfigDlpfBandwidth :: "header \<Rightarrow> DlpfBandwidth \<Rightarrow> Mpu9150 \<Rightarrow> bool \<times> Mpu9150" where
  "ConfigDlpfBandwidth h dlpf s =
     (case
        (if dlpf = DLPF_BANDWIDTH_184HZ h then Some (s\<lparr>requested_dlpf := dlpf\<rparr>)
         else if dlpf = DLPF_BANDWIDTH_92HZ h then Some (s\<lparr>requested_dlpf := dlpf\<rparr>)
         else if dlpf = DLPF_BANDWIDTH_41HZ h then Some (s\<lparr>requested_dlpf := dlpf\<rparr>)
         else if dlpf = DLPF_BANDWIDTH_20HZ h then Some (s\<lparr>requested_dlpf := dlpf\<rparr>)
         else if dlpf = DLPF_BANDWIDTH_10HZ h then Some (s\<lparr>requested_dlpf := dlpf\<rparr>)
         else if dlpf = DLPF_BANDWIDTH_5HZ h then Some (s\<lparr>requested_dlpf := dlpf\<rparr>)
         else None)
      of
        None \<Rightarrow> (False, s)
      | Some s1 \<Rightarrow>
          (case WriteRegister (ACCEL_CONFIG2 h) (requested_dlpf s1) s1 of
             (False, s2) \<Rightarrow> (False, s2)
           | (True, s2) \<Rightarrow>
               (case WriteRegister (CONFIG h) (requested_dlpf s2) s2 of
                  (False, s3) \<Rightarrow> (False, s3)
                | (True, s3) \<Rightarrow> (True, s3\<lparr>dlpf_bandwidth := requested_dlpf s3\<rparr>))))"

subsection \<open>Initialisation (lines 45 to 90)\<close>

definition Begin :: "header \<Rightarrow> MagMode \<Rightarrow> Mpu9150 \<Rightarrow> bool \<times> Mpu9150" where
  "Begin h mode s0 =
     (let s1 = s0\<lparr>mag_mode := mode\<rparr>;
          s2 = s1\<lparr>imu := imu_Begin (imu s1)\<rparr>;
          s3 = snd (WriteRegister (PWR_MGMNT_1 h) (H_RESET h) s2);
          s4 = delay 100 s3
      in
      case WriteRegister (PWR_MGMNT_1 h) (CLKSEL_PLL h) s4 of
        (False, s5) \<Rightarrow> (False, s5)
      | (True, s5) \<Rightarrow>
      (case ReadRegisters (WHOAMI h) 1 s5 of
        (None, s6) \<Rightarrow> (False, s6)
      | (Some bs, s6) \<Rightarrow>
      (let s7 = s6\<lparr>who_am_i := hd bs\<rparr> in
       if who_am_i s7 \<noteq> WHOAMI_MPU9150 h then (False, s7)
       else
      (case (if mag_mode s7 = MAG_PASSTHROUGH h
             then WriteRegister (INT_PIN_CFG h) (I2C_BYPASS_EN h) s7
             else (True, s7)) of
        (False, s8) \<Rightarrow> (False, s8)
      | (True, s8) \<Rightarrow>
      (case WriteRegister (PWR_MGMNT_1 h) (CLKSEL_PLL h) s8 of
        (False, s9) \<Rightarrow> (False, s9)
      | (True, s9) \<Rightarrow>
      (case ConfigAccelRange h (ACCEL_RANGE_16G h) s9 of
        (False, s10) \<Rightarrow> (False, s10)
      | (True, s10) \<Rightarrow>
      (case ConfigGyroRange h (GYRO_RANGE_2000DPS h) s10 of
        (False, s11) \<Rightarrow> (False, s11)
      | (True, s11) \<Rightarrow>
      (case ConfigDlpfBandwidth h (DLPF_BANDWIDTH_184HZ h) s11 of
        (False, s12) \<Rightarrow> (False, s12)
      | (True, s12) \<Rightarrow>
      (case ConfigSrd h 0 s12 of
        (False, s13) \<Rightarrow> (False, s13)
      | (True, s13) \<Rightarrow> (True, s13))))))))))"

subsection \<open>Reading one sample (lines 271 to 373)\<close>

text \<open>
  \<^verbatim>\<open>static_cast<int16_t>(hi) << 8 | lo\<close>: the cast gives a 16-bit value, both operands
  are promoted to \<^verbatim>\<open>int\<close> (32 bits) for the shift and the bitwise or, and the assignment
  to an \<^verbatim>\<open>int16_t\<close> keeps the low 16 bits.
\<close>

definition unpack16 :: "8 word \<Rightarrow> 8 word \<Rightarrow> 16 word" where
  "unpack16 hi lo =
     ucast (push_bit 8 (scast (ucast hi :: 16 word) :: 32 word) OR (ucast lo :: 32 word))"

text \<open>\<^verbatim>\<open>static_cast<float>(c)\<close> for an \<^verbatim>\<open>int16_t\<close> count.\<close>

definition to_float :: "16 word \<Rightarrow> real" where
  "to_float c = real_of_int (sint c)"

text \<open>
  An access to a caller's array is checked against the length of the array: an index
  outside the array is undefined behaviour in C++, which the model makes visible as
  the result \<open>None\<close>.
\<close>

definition fetch :: "'a list \<Rightarrow> nat \<Rightarrow> 'a option" where
  "fetch xs i = (if i < length xs then Some (xs ! i) else None)"

definition store :: "'a list \<Rightarrow> nat \<Rightarrow> 'a \<Rightarrow> 'a list option" where
  "store xs i v = (if i < length xs then Some (xs[i := v]) else None)"

definition store_bytes :: "8 word list \<Rightarrow> 8 word list \<Rightarrow> 8 word list option" where
  "store_bytes buf bs =
     (if length bs \<le> length buf then Some (bs @ drop (length bs) buf) else None)"

definition Read :: "header \<Rightarrow> Mpu9150 \<Rightarrow> bool \<times> Mpu9150" where
  "Read h s0 =
     (let s1 = s0\<lparr>new_imu_data := False\<rparr> in
      case ReadRegisters (INT_STATUS h) (of_nat data_buf_size) s1 of
        (None, s2) \<Rightarrow> (False, s2)
      | (Some bs, s2) \<Rightarrow>
          (let s3 = s2\<lparr>data_buf := bs\<rparr>;
               s4 = s3\<lparr>new_imu_data := (data_buf s3 ! 0 AND RAW_DATA_RDY_INT h \<noteq> 0)\<rparr>
           in
           if \<not> new_imu_data s4 then (False, s4)
           else
             (let s5 = s4\<lparr>accel_cnts := [unpack16 (data_buf s4 ! 1) (data_buf s4 ! 2),
                                           unpack16 (data_buf s4 ! 3) (data_buf s4 ! 4),
                                           unpack16 (data_buf s4 ! 5) (data_buf s4 ! 6)],
                             temp_cnts := unpack16 (data_buf s4 ! 7) (data_buf s4 ! 8),
                             gyro_cnts := [unpack16 (data_buf s4 ! 9) (data_buf s4 ! 10),
                                          unpack16 (data_buf s4 ! 11) (data_buf s4 ! 12),
                                          unpack16 (data_buf s4 ! 13) (data_buf s4 ! 14)]\<rparr>;
                  s6 = s5\<lparr>accel := [to_float (accel_cnts s5 ! 1) * accel_scale s5 * G_MPS2 h,
                                      to_float (accel_cnts s5 ! 0) * accel_scale s5 * G_MPS2 h,
                                      to_float (accel_cnts s5 ! 2) * accel_scale s5 * (- 1) *
                                        G_MPS2 h],
                             temp := to_float (temp_cnts s5) / TEMP_SCALE h + 35,
                             gyro := [to_float (gyro_cnts s5 ! 1) * gyro_scale s5 * DEG2RAD h,
                                     to_float (gyro_cnts s5 ! 0) * gyro_scale s5 * DEG2RAD h,
                                     to_float (gyro_cnts s5 ! 2) * gyro_scale s5 * (- 1) *
                                       DEG2RAD h]\<rparr>
              in (True, s6))))"

text \<open>
  \<^verbatim>\<open>Read(float * values)\<close>, here \<open>Read_values\<close>: the caller's array is the list \<open>values\<close>,
  returned updated. The eight stores are in the order of the source.
\<close>

definition Read_values ::
  "header \<Rightarrow> real list \<Rightarrow> Mpu9150 \<Rightarrow> (bool \<times> Mpu9150 \<times> real list) option" where
  "Read_values h values s0 =
     (let s1 = s0\<lparr>new_imu_data := False\<rparr> in
      case ReadRegisters (INT_STATUS h) (of_nat data_buf_size) s1 of
        (None, s2) \<Rightarrow> Some (False, s2, values)
      | (Some bs, s2) \<Rightarrow>
          (let s3 = s2\<lparr>data_buf := bs\<rparr>;
               s4 = s3\<lparr>new_imu_data := (data_buf s3 ! 0 AND RAW_DATA_RDY_INT h \<noteq> 0)\<rparr>
           in
           if \<not> new_imu_data s4 then Some (False, s4, values)
           else
             (let s5 = s4\<lparr>accel_cnts := [unpack16 (data_buf s4 ! 1) (data_buf s4 ! 2),
                                           unpack16 (data_buf s4 ! 3) (data_buf s4 ! 4),
                                           unpack16 (data_buf s4 ! 5) (data_buf s4 ! 6)],
                             temp_cnts := unpack16 (data_buf s4 ! 7) (data_buf s4 ! 8),
                             gyro_cnts := [unpack16 (data_buf s4 ! 9) (data_buf s4 ! 10),
                                          unpack16 (data_buf s4 ! 11) (data_buf s4 ! 12),
                                          unpack16 (data_buf s4 ! 13) (data_buf s4 ! 14)]\<rparr>;
                  s6 = s5\<lparr>accel := [to_float (accel_cnts s5 ! 1) * accel_scale s5 * G_MPS2 h,
                                      to_float (accel_cnts s5 ! 0) * accel_scale s5 * G_MPS2 h,
                                      to_float (accel_cnts s5 ! 2) * accel_scale s5 * (- 1) *
                                        G_MPS2 h],
                             temp := (to_float (temp_cnts s5) - 21) / TEMP_SCALE h + 21,
                             gyro := [to_float (gyro_cnts s5 ! 1) * gyro_scale s5 * DEG2RAD h,
                                     to_float (gyro_cnts s5 ! 0) * gyro_scale s5 * DEG2RAD h,
                                     to_float (gyro_cnts s5 ! 2) * gyro_scale s5 * (- 1) *
                                       DEG2RAD h]\<rparr>
              in
              case store values 0 (to_float (accel_cnts s6 ! 1) * accel_scale s6) of
                None \<Rightarrow> None | Some v0 \<Rightarrow>
              (case store v0 1 (to_float (accel_cnts s6 ! 0) * accel_scale s6) of
                None \<Rightarrow> None | Some v1 \<Rightarrow>
              (case store v1 2 (to_float (accel_cnts s6 ! 2) * accel_scale s6 * (- 1)) of
                None \<Rightarrow> None | Some v2 \<Rightarrow>
              (case store v2 9 ((to_float (temp_cnts s6) - 21) / TEMP_SCALE h + 21) of
                None \<Rightarrow> None | Some v3 \<Rightarrow>
              (case store v3 3 (to_float (gyro_cnts s6 ! 1) * gyro_scale s6) of
                None \<Rightarrow> None | Some v4 \<Rightarrow>
              (case store v4 4 (to_float (gyro_cnts s6 ! 0) * gyro_scale s6) of
                None \<Rightarrow> None | Some v5 \<Rightarrow>
              (case store v5 5 (to_float (gyro_cnts s6 ! 2) * gyro_scale s6 * (- 1)) of
                None \<Rightarrow> None | Some v6 \<Rightarrow>
              (case store v6 7 (temp s6) of
                None \<Rightarrow> None | Some v7 \<Rightarrow> Some (True, s6, v7)))))))))))"

definition Read_raw ::
  "header \<Rightarrow> 16 word list \<Rightarrow> Mpu9150 \<Rightarrow> (bool \<times> Mpu9150 \<times> 16 word list) option" where
  "Read_raw h values s0 =
     (let s1 = s0\<lparr>new_imu_data := False\<rparr> in
      case ReadRegisters (INT_STATUS h) (of_nat data_buf_size) s1 of
        (None, s2) \<Rightarrow> Some (False, s2, values)
      | (Some bs, s2) \<Rightarrow>
          (let s3 = s2\<lparr>data_buf := bs\<rparr>;
               s4 = s3\<lparr>new_imu_data := (data_buf s3 ! 0 AND RAW_DATA_RDY_INT h \<noteq> 0)\<rparr>
           in
           if \<not> new_imu_data s4 then Some (False, s4, values)
           else
              case store values 0 (unpack16 (data_buf s4 ! 1) (data_buf s4 ! 2)) of
                None \<Rightarrow> None | Some v0 \<Rightarrow>
              (case store v0 1 (unpack16 (data_buf s4 ! 3) (data_buf s4 ! 4)) of
                None \<Rightarrow> None | Some v1 \<Rightarrow>
              (case store v1 2 (unpack16 (data_buf s4 ! 5) (data_buf s4 ! 6)) of
                None \<Rightarrow> None | Some v2 \<Rightarrow>
              (case store v2 6 (unpack16 (data_buf s4 ! 7) (data_buf s4 ! 8)) of
                None \<Rightarrow> None | Some v3 \<Rightarrow>
              (case store v3 3 (unpack16 (data_buf s4 ! 9) (data_buf s4 ! 10)) of
                None \<Rightarrow> None | Some v4 \<Rightarrow>
              (case store v4 4 (unpack16 (data_buf s4 ! 11) (data_buf s4 ! 12)) of
                None \<Rightarrow> None | Some v5 \<Rightarrow>
              (case store v5 5 (unpack16 (data_buf s4 ! 13) (data_buf s4 ! 14)) of
                None \<Rightarrow> None | Some v6 \<Rightarrow> Some (True, s4, v6)))))))))"

subsection \<open>The FIFO (lines 375 to 429)\<close>

text \<open>
  \<^verbatim>\<open>ReadFifo(uint8_t * const data, const size_t len)\<close>: \<open>data\<close> is \<open>None\<close> for a null pointer.
  The private overload that does the burst read takes its count as a \<^verbatim>\<open>uint8_t\<close>, so
  \<^verbatim>\<open>bytes_to_read_\<close> is cut to 8 bits there (\<open>of_nat\<close>); the value returned is
  \<^verbatim>\<open>bytes_to_read_\<close> itself, converted to \<^verbatim>\<open>int16_t\<close>.
\<close>

definition ReadFifo ::
  "header \<Rightarrow> 8 word list option \<Rightarrow> nat \<Rightarrow> Mpu9150 \<Rightarrow>
     (16 word \<times> Mpu9150 \<times> 8 word list option) option" where
  "ReadFifo h data len s0 =
     (case data of
        None \<Rightarrow> Some (- 1, s0, data)
      | Some buf \<Rightarrow>
     (case ReadRegisters (INT_STATUS h) 1 s0 of
        (None, s1) \<Rightarrow> Some (- 1, s1, data)
      | (Some st, s1) \<Rightarrow>
     (let s2 = s1\<lparr>data_buf := st @ drop 1 (data_buf s1)\<rparr>;
          s3 = s2\<lparr>fifo_overflowed := (data_buf s2 ! 0 AND FIFO_OFLOW_INT h \<noteq> 0)\<rparr>
      in
      case ReadRegisters (FIFO_COUNT_H h) 2 s3 of
        (None, s4) \<Rightarrow> Some (- 1, s4, data)
      | (Some cb, s4) \<Rightarrow>
     (let s5 = s4\<lparr>data_buf := cb @ drop 2 (data_buf s4)\<rparr>;
          s6 = s5\<lparr>fifo_count := unpack16 (data_buf s5 ! 0) (data_buf s5 ! 1)\<rparr>
      in
      if 0 < sint (fifo_count s6) then
        (let s7 = (if len < nat (sint (fifo_count s6))
                   then s6\<lparr>bytes_to_read := len\<rparr>
                   else s6\<lparr>bytes_to_read := nat (sint (fifo_count s6))\<rparr>)
         in
         case ReadFifo_burst (FIFO_R_W h) (of_nat (bytes_to_read s7)) s7 of
           (None, s8) \<Rightarrow> Some (- 1, s8, data)
         | (Some bs, s8) \<Rightarrow>
             (case store_bytes buf bs of
                None \<Rightarrow> None
              | Some buf' \<Rightarrow> Some (of_nat (bytes_to_read s8), s8, Some buf')))
      else Some (0, s6, data)))))"

text \<open>
  \<^verbatim>\<open>ProcessFifoData\<close>: the six output arrays are the fields of \<open>fifo_out\<close>. One pass of the
  loop body is \<open>ProcessFifoData_record\<close>, the loop itself \<open>ProcessFifoData_loop\<close> with
  the loop variables \<open>i\<close> and \<open>j\<close> of the source.
\<close>

record fifo_out =
  gx :: "real list"
  gy :: "real list"
  gz :: "real list"
  ax :: "real list"
  ay :: "real list"
  az :: "real list"

definition ProcessFifoData_record ::
  "header \<Rightarrow> 8 word list \<Rightarrow> nat \<Rightarrow> nat \<Rightarrow> Mpu9150 \<Rightarrow> fifo_out \<Rightarrow> (Mpu9150 \<times> fifo_out) option" where
  "ProcessFifoData_record h data i j s out =
     (case map (fetch data) [i + 0, i + 1, i + 2, i + 3, i + 4, i + 5,
                             i + 6, i + 7, i + 8, i + 9, i + 10, i + 11] of
        [Some b0, Some b1, Some b2, Some b3, Some b4, Some b5,
         Some b6, Some b7, Some b8, Some b9, Some b10, Some b11] \<Rightarrow>
          (let s1 = s\<lparr>accel_cnts := [unpack16 b0 b1, unpack16 b2 b3, unpack16 b4 b5],
                      gyro_cnts := [unpack16 b6 b7, unpack16 b8 b9, unpack16 b10 b11]\<rparr>
           in
           case store (ax out) j (to_float (accel_cnts s1 ! 1) * accel_scale s1 * G_MPS2 h) of
             None \<Rightarrow> None | Some ax1 \<Rightarrow>
           (case store (ay out) j (to_float (accel_cnts s1 ! 0) * accel_scale s1 * G_MPS2 h) of
             None \<Rightarrow> None | Some ay1 \<Rightarrow>
           (case store (az out) j
                   (to_float (accel_cnts s1 ! 2) * accel_scale s1 * (- 1) * G_MPS2 h) of
             None \<Rightarrow> None | Some az1 \<Rightarrow>
           (case store (gx out) j (to_float (gyro_cnts s1 ! 1) * gyro_scale s1 * DEG2RAD h) of
             None \<Rightarrow> None | Some gx1 \<Rightarrow>
           (case store (gy out) j (to_float (gyro_cnts s1 ! 0) * gyro_scale s1 * DEG2RAD h) of
             None \<Rightarrow> None | Some gy1 \<Rightarrow>
           (case store (gz out) j
                   (to_float (gyro_cnts s1 ! 2) * gyro_scale s1 * (- 1) * DEG2RAD h) of
             None \<Rightarrow> None | Some gz1 \<Rightarrow>
               Some (s1, \<lparr>gx = gx1, gy = gy1, gz = gz1, ax = ax1, ay = ay1, az = az1\<rparr>)))))))
      | _ \<Rightarrow> None)"

function ProcessFifoData_loop ::
  "header \<Rightarrow> 8 word list \<Rightarrow> nat \<Rightarrow> nat \<Rightarrow> nat \<Rightarrow> Mpu9150 \<Rightarrow> fifo_out \<Rightarrow>
     (nat \<times> Mpu9150 \<times> fifo_out) option" where
  "ProcessFifoData_loop h data len i j s out =
     (if i < len then
        (case ProcessFifoData_record h data i j s out of
           None \<Rightarrow> None
         | Some (s1, out1) \<Rightarrow> ProcessFifoData_loop h data len (i + 12) (j + 1) s1 out1)
      else Some (j, s, out))"
  by pat_completeness auto
termination
  by (relation "measure (\<lambda>(h, data, len, i, j, s, out). len - i)") auto

declare ProcessFifoData_loop.simps [simp del]

definition ProcessFifoData ::
  "header \<Rightarrow> 8 word list option \<Rightarrow> nat \<Rightarrow>
     real list option \<Rightarrow> real list option \<Rightarrow> real list option \<Rightarrow>
     real list option \<Rightarrow> real list option \<Rightarrow> real list option \<Rightarrow> Mpu9150 \<Rightarrow>
     (16 word \<times> Mpu9150 \<times> fifo_out option) option" where
  "ProcessFifoData h data len gx_p gy_p gz_p ax_p ay_p az_p s =
     (case (data, gx_p, gy_p, gz_p, ax_p, ay_p, az_p) of
        (Some d, Some gx0, Some gy0, Some gz0, Some ax0, Some ay0, Some az0) \<Rightarrow>
          (case ProcessFifoData_loop h d len 0 0 s
                  \<lparr>gx = gx0, gy = gy0, gz = gz0, ax = ax0, ay = ay0, az = az0\<rparr> of
             None \<Rightarrow> None
           | Some (j, s1, out) \<Rightarrow> Some (of_nat j, s1, Some out))
      | _ \<Rightarrow> Some (- 1, s, None))"

section \<open>Vocabulary of the properties\<close>

text \<open>The answer the device will give to the \<open>k\<close>-th operation issued from now on.\<close>

definition reply_at :: "Mpu9150 \<Rightarrow> nat \<Rightarrow> reply" where
  "reply_at s k = respond (imu s) (length (issued (imu s)) + k)"

text \<open>The active configuration: range and scale of both sensors, bandwidth and divider.\<close>

definition active_config ::
  "Mpu9150 \<Rightarrow> (AccelRange \<times> real) \<times> (GyroRange \<times> real) \<times> DlpfBandwidth \<times> 8 word" where
  "active_config s =
     ((accel_range s, accel_scale s), (gyro_range s, gyro_scale s), dlpf_bandwidth s, srd s)"

definition accel_enumerators :: "header \<Rightarrow> AccelRange list" where
  "accel_enumerators h =
     [ACCEL_RANGE_2G h, ACCEL_RANGE_4G h, ACCEL_RANGE_8G h, ACCEL_RANGE_16G h]"

definition gyro_enumerators :: "header \<Rightarrow> GyroRange list" where
  "gyro_enumerators h =
     [GYRO_RANGE_250DPS h, GYRO_RANGE_500DPS h, GYRO_RANGE_1000DPS h, GYRO_RANGE_2000DPS h]"

definition dlpf_enumerators :: "header \<Rightarrow> DlpfBandwidth list" where
  "dlpf_enumerators h =
     [DLPF_BANDWIDTH_184HZ h, DLPF_BANDWIDTH_92HZ h, DLPF_BANDWIDTH_41HZ h,
      DLPF_BANDWIDTH_20HZ h, DLPF_BANDWIDTH_10HZ h, DLPF_BANDWIDTH_5HZ h]"

text \<open>The full scale that each range enumerator stands for, in g and in degrees per second.\<close>

definition accel_full_scale :: "header \<Rightarrow> (AccelRange \<times> real) list" where
  "accel_full_scale h =
     [(ACCEL_RANGE_2G h, 2), (ACCEL_RANGE_4G h, 4), (ACCEL_RANGE_8G h, 8),
      (ACCEL_RANGE_16G h, 16)]"

definition gyro_full_scale :: "header \<Rightarrow> (GyroRange \<times> real) list" where
  "gyro_full_scale h =
     [(GYRO_RANGE_250DPS h, 250), (GYRO_RANGE_500DPS h, 500), (GYRO_RANGE_1000DPS h, 1000),
      (GYRO_RANGE_2000DPS h, 2000)]"

text \<open>
  The steps of \<open>Begin\<close> that follow the reset and the settle delay, as the register
  operations they issue, and what it means for one of them to succeed: a write is
  acknowledged, the identity read delivers the expected identity byte.
\<close>

definition begin_steps :: "header \<Rightarrow> MagMode \<Rightarrow> bus_op list" where
  "begin_steps h mode =
     [WriteReg (PWR_MGMNT_1 h) (CLKSEL_PLL h), ReadRegs (WHOAMI h) 1] @
     (if mode = MAG_PASSTHROUGH h then [WriteReg (INT_PIN_CFG h) (I2C_BYPASS_EN h)] else []) @
     [WriteReg (PWR_MGMNT_1 h) (CLKSEL_PLL h),
      WriteReg (ACCEL_CONFIG h) (ACCEL_RANGE_16G h),
      WriteReg (GYRO_CONFIG h) (GYRO_RANGE_2000DPS h),
      WriteReg (ACCEL_CONFIG2 h) (DLPF_BANDWIDTH_184HZ h),
      WriteReg (CONFIG h) (DLPF_BANDWIDTH_184HZ h),
      WriteReg (SMPLRT_DIV h) 0]"

definition step_succeeds :: "header \<Rightarrow> bus_op \<Rightarrow> reply \<Rightarrow> bool" where
  "step_succeeds h op r =
     (case op of
        ReadRegs reg n \<Rightarrow> r = Ack [WHOAMI_MPU9150 h]
      | _ \<Rightarrow> write_ok r)"

text \<open>
  Running a list of steps and aborting at the first failure: the operations are issued in
  order, the operation at position \<open>n\<close> gets the answer \<open>rs n\<close>, and the first step that
  fails is the last one issued. The result is the success flag and the operations issued.
\<close>

fun until_first_failure ::
  "(bus_op \<Rightarrow> reply \<Rightarrow> bool) \<Rightarrow> (nat \<Rightarrow> reply) \<Rightarrow> nat \<Rightarrow> bus_op list \<Rightarrow> bool \<times> bus_op list" where
  "until_first_failure ok rs n [] = (True, [])"
| "until_first_failure ok rs n (op # ops) =
     (if ok op (rs n)
      then (fst (until_first_failure ok rs (Suc n) ops),
            op # snd (until_first_failure ok rs (Suc n) ops))
      else (False, [op]))"

text \<open>The big-endian signed 16-bit value of a pair of bytes.\<close>

definition be_s16 :: "8 word \<Rightarrow> 8 word \<Rightarrow> int" where
  "be_s16 hi lo =
     (let u = 256 * uint hi + uint lo in if u < 32768 then u else u - 65536)"

text \<open>
  Scaling three raw counts by hand and remapping the axes: output X from raw Y, output Y
  from raw X, output Z from raw Z negated.
\<close>

definition remap_scaled :: "16 word \<Rightarrow> 16 word \<Rightarrow> 16 word \<Rightarrow> real \<Rightarrow> real \<Rightarrow> real list" where
  "remap_scaled x y z scale unit =
     [real_of_int (sint y) * scale * unit,
      real_of_int (sint x) * scale * unit,
      - (real_of_int (sint z) * scale * unit)]"

text \<open>
  The FIFO byte count that the device reports in its answer to the count read, and
  whether one of the transport reads that \<open>ReadFifo\<close> performs fails: the status read,
  the count read, or, when the count is positive, the burst read.
\<close>

definition reported_count :: "reply \<Rightarrow> int" where
  "reported_count r = (case r of Ack [hi, lo] \<Rightarrow> be_s16 hi lo | _ \<Rightarrow> 0)"

definition burst_count :: "nat \<Rightarrow> reply \<Rightarrow> nat" where
  "burst_count len r = min len (nat (reported_count r))"

definition transport_read_fails :: "nat \<Rightarrow> Mpu9150 \<Rightarrow> bool" where
  "transport_read_fails len s =
     (read_bytes (reply_at s 0) 1 = None \<or>
      read_bytes (reply_at s 1) 2 = None \<or>
      (0 < reported_count (reply_at s 1) \<and>
       read_bytes (reply_at s 2) (burst_count len (reply_at s 1) mod 256) = None))"

subsection \<open>Auxiliary definitions of the proofs\<close>

text \<open>The scale that the \<^verbatim>\<open>switch\<close> of a range configuration selects, if any.\<close>

definition accel_request :: "header \<Rightarrow> AccelRange \<Rightarrow> real option" where
  "accel_request h r =
     (if r = ACCEL_RANGE_2G h then Some (2 / 32767.5)
      else if r = ACCEL_RANGE_4G h then Some (4 / 32767.5)
      else if r = ACCEL_RANGE_8G h then Some (8 / 32767.5)
      else if r = ACCEL_RANGE_16G h then Some (16 / 32767.5)
      else None)"

definition gyro_request :: "header \<Rightarrow> GyroRange \<Rightarrow> real option" where
  "gyro_request h r =
     (if r = GYRO_RANGE_250DPS h then Some (250 / 32767.5)
      else if r = GYRO_RANGE_500DPS h then Some (500 / 32767.5)
      else if r = GYRO_RANGE_1000DPS h then Some (1000 / 32767.5)
      else if r = GYRO_RANGE_2000DPS h then Some (2000 / 32767.5)
      else None)"

text \<open>
  What is observed of a call: its result and the operations issued so far; the same for
  a run of steps from a given object; and the relation between an object and a later one
  that has issued the operations \<open>ops\<close> in between.
\<close>

definition obs :: "bool \<times> Mpu9150 \<Rightarrow> bool \<times> bus_op list" where
  "obs p = (fst p, issued (imu (snd p)))"

definition run :: "header \<Rightarrow> Mpu9150 \<Rightarrow> bus_op list \<Rightarrow> bool \<times> bus_op list" where
  "run h t ops =
     (fst (until_first_failure (step_succeeds h) (respond (imu t)) (length (issued (imu t))) ops),
      issued (imu t) @
      snd (until_first_failure (step_succeeds h) (respond (imu t)) (length (issued (imu t))) ops))"

definition after :: "Mpu9150 \<Rightarrow> bus_op list \<Rightarrow> Mpu9150 \<Rightarrow> bool" where
  "after t ops t' =
     (respond (imu t') = respond (imu t) \<and> issued (imu t') = issued (imu t) @ ops \<and>
      mag_mode t' = mag_mode t)"

subsection \<open>Concrete inputs\<close>

text \<open>
  An instance of the header, with the register map of the MPU-9150 data sheet, and an
  object in front of a device that answers the operation at position \<open>n\<close> with \<open>rs n\<close>.
  They serve to evaluate the model on concrete inputs.
\<close>

definition example_header :: header where
  "example_header =
     \<lparr>PWR_MGMNT_1 = 0x6B, H_RESET = 0x80, CLKSEL_PLL = 0x01, WHOAMI = 0x75,
      WHOAMI_MPU9150 = 0x68, INT_PIN_CFG = 0x37, I2C_BYPASS_EN = 0x02,
      ACCEL_CONFIG = 0x1C, GYRO_CONFIG = 0x1B, SMPLRT_DIV = 0x19, ACCEL_CONFIG2 = 0x1D,
      CONFIG = 0x1A, INT_STATUS = 0x3A, RAW_DATA_RDY_INT = 0x01, FIFO_OFLOW_INT = 0x10,
      FIFO_COUNT_H = 0x72, FIFO_R_W = 0x74, MAG_PASSTHROUGH = 0,
      ACCEL_RANGE_2G = 0x00, ACCEL_RANGE_4G = 0x08, ACCEL_RANGE_8G = 0x10,
      ACCEL_RANGE_16G = 0x18,
      GYRO_RANGE_250DPS = 0x00, GYRO_RANGE_500DPS = 0x08, GYRO_RANGE_1000DPS = 0x10,
      GYRO_RANGE_2000DPS = 0x18,
      DLPF_BANDWIDTH_184HZ = 0x01, DLPF_BANDWIDTH_92HZ = 0x02, DLPF_BANDWIDTH_41HZ = 0x03,
      DLPF_BANDWIDTH_20HZ = 0x04, DLPF_BANDWIDTH_10HZ = 0x05, DLPF_BANDWIDTH_5HZ = 0x06,
      TEMP_SCALE = 340, G_MPS2 = 10, DEG2RAD = 1 / 50\<rparr>"

definition example_object :: "(nat \<Rightarrow> reply) \<Rightarrow> Mpu9150" where
  "example_object rs =
     \<lparr>imu = \<lparr>issued = [], respond = rs\<rparr>, mag_mode = 0, who_am_i = 0,
      accel_range = 0, requested_accel_range = 0, accel_scale = 1, requested_accel_scale = 1,
      gyro_range = 0, requested_gyro_range = 0, gyro_scale = 2, requested_gyro_scale = 2,
      dlpf_bandwidth = 0, requested_dlpf = 0, srd = 0, new_imu_data = False,
      data_buf = replicate 15 0, accel_cnts = [0, 0, 0], gyro_cnts = [0, 0, 0], temp_cnts = 0,
      accel = [0, 0, 0], gyro = [0, 0, 0], temp = 0, fifo_overflowed = False, fifo_count = 0,
      bytes_to_read = 0\<rparr>"

text \<open>A device that answers nothing, one that acknowledges everything, one that
  acknowledges everything but the hardware reset, and one whose identity byte is wrong.\<close>

definition no_device :: "nat \<Rightarrow> reply" where
  "no_device n = Nack"

definition good_device :: "nat \<Rightarrow> reply" where
  "good_device n = Ack [0x68]"

definition reset_nack_device :: "nat \<Rightarrow> reply" where
  "reset_nack_device n = (if n = 1 then Nack else Ack [0x68])"

definition wrong_identity_device :: "nat \<Rightarrow> reply" where
  "wrong_identity_device n = Ack [0x71]"

text \<open>Two frames of 15 bytes, the first with the data-ready bit set, the second without,
  and devices that deliver them.\<close>

definition ready_frame :: "8 word list" where
  "ready_frame = [0x01, 0x00, 0x01, 0x00, 0x02, 0xFF, 0xFD, 0x01, 0x69,
                  0x00, 0x04, 0x00, 0x05, 0xFF, 0xFA]"

definition stale_frame :: "8 word list" where
  "stale_frame = [0x00, 0x00, 0x01, 0x00, 0x02, 0xFF, 0xFD, 0x01, 0x69,
                  0x00, 0x04, 0x00, 0x05, 0xFF, 0xFA]"

definition ready_device :: "nat \<Rightarrow> reply" where
  "ready_device n = Ack ready_frame"

definition stale_device :: "nat \<Rightarrow> reply" where
  "stale_device n = Ack stale_frame"

text \<open>A device whose FIFO holds 512 bytes and that delivers four of them in a burst.\<close>

definition fifo_device :: "nat \<Rightarrow> reply" where
  "fifo_device n =
     (if n = 0 then Ack [0x00] else if n = 1 then Ack [0x02, 0x00] else Ack [1, 2, 3, 4])"

text \<open>Two FIFO records of 12 bytes each.\<close>

definition fifo_bytes :: "8 word list" where
  "fifo_bytes = [0, 1, 0, 2, 0, 3, 0, 4, 0, 5, 0, 6, 0, 7, 0, 8, 0, 9, 0, 10, 0, 11, 0, 12]"

section \<open>Properties\<close>

subsection \<open>Basic facts about the transport and the byte decoding\<close>

lemma issued_issue [simp]: "issued (issue op b) = issued b @ [op]"
  by (simp add: issue_def)

lemma respond_issue [simp]: "respond (issue op b) = respond b"
  by (simp add: issue_def)

lemma WriteRegister_eq:
  "WriteRegister reg data s =
     (write_ok (reply_at s 0), s\<lparr>imu := issue (WriteReg reg data) (imu s)\<rparr>)"
  by (simp add: WriteRegister_def imu_WriteRegister_def reply_at_def next_reply_def)

lemma ReadRegisters_eq:
  "ReadRegisters reg count s =
     (read_bytes (reply_at s 0) (unat count), s\<lparr>imu := issue (ReadRegs reg count) (imu s)\<rparr>)"
  by (simp add: ReadRegisters_def imu_ReadRegisters_def reply_at_def next_reply_def)

lemma ReadFifo_burst_eq:
  "ReadFifo_burst reg count s =
     (read_bytes (reply_at s 0) (unat count),
      s\<lparr>imu := issue (ReadFifoBurst reg count) (imu s)\<rparr>)"
  by (simp add: ReadFifo_burst_def imu_ReadFifo_def reply_at_def next_reply_def)

lemma read_bytes_Some: "read_bytes r n = Some bs \<Longrightarrow> r = Ack bs \<and> length bs = n"
  by (cases r) (auto simp add: read_bytes_def split: if_splits)

lemma unpack16_cat: "unpack16 hi lo = word_cat hi lo"
  unfolding unpack16_def
  by (rule bit_word_eqI) (auto simp add: bit_simps dest: bit_imp_le_length)

lemma uint_cat:
  "uint (word_cat hi lo :: 16 word) = 256 * uint (hi :: 8 word) + uint (lo :: 8 word)"
proof -
  have h: "0 \<le> uint hi" "uint hi < 256" "0 \<le> uint lo" "uint lo < 256"
    using uint_lt2p [of hi] uint_lt2p [of lo] by simp_all
  have "uint (word_cat hi lo :: 16 word) = (uint lo mod 2 ^ 8 + uint hi * 2 ^ 8) mod 2 ^ 16"
    by (simp only: word_cat_eq' uint_word_of_int_eq concat_bit_eq take_bit_eq_mod
        push_bit_eq_mult len_bit0 len_num1 mult_numeral_1_right numeral_times_numeral
        semiring_norm)
  also have "\<dots> = (uint lo + uint hi * 256) mod 65536"
    using h by simp
  also have "\<dots> = uint lo + uint hi * 256"
    using h by (intro mod_pos_pos_trivial) simp_all
  finally show ?thesis by simp
qed

lemma sint_16: "sint (w :: 16 word) = (if uint w < 32768 then uint w else uint w - 65536)"
proof -
  have h: "0 \<le> uint w" "uint w < 65536"
    using uint_lt2p [of w] by simp_all
  have s: "sint w = (uint w + 32768) mod 65536 - 32768"
    by (simp add: sint_uint signed_take_bit_eq_take_bit_shift take_bit_eq_mod)
  show ?thesis
  proof (cases "uint w < 32768")
    case True
    then have "(uint w + 32768) mod 65536 = uint w + 32768"
      using h by (intro mod_pos_pos_trivial) simp_all
    then show ?thesis using True s by simp
  next
    case False
    have "uint w + 32768 = (uint w - 32768) + 65536"
      by arith
    then have "(uint w + 32768) mod 65536 = ((uint w - 32768) + 65536) mod 65536"
      by (rule arg_cong)
    also have "\<dots> = (uint w - 32768) mod 65536"
      by (simp only: mod_add_self2)
    also have "\<dots> = uint w - 32768"
      using h False by (intro mod_pos_pos_trivial) simp_all
    finally show ?thesis using False s by simp
  qed
qed

text \<open>The unpacking of the source yields the big-endian signed 16-bit value.\<close>

lemma sint_unpack16: "sint (unpack16 hi lo) = be_s16 hi lo"
  by (simp add: unpack16_cat sint_16 uint_cat be_s16_def Let_def)

lemma to_float_unpack16: "to_float (unpack16 hi lo) = real_of_int (be_s16 hi lo)"
  by (simp only: to_float_def sint_unpack16)

lemma signed_unpack16: "(signed (unpack16 hi lo) :: real) = real_of_int (be_s16 hi lo)"
  using to_float_unpack16 [of hi lo] by (simp add: to_float_def)

lemma be_s16_bounds: "- 32768 \<le> be_s16 hi lo" "be_s16 hi lo < 32768"
proof -
  have "- 32768 \<le> sint (unpack16 hi lo)" "sint (unpack16 hi lo) < 32768"
    using sint_ge [of "unpack16 hi lo"] sint_lt [of "unpack16 hi lo"] by simp_all
  then show "- 32768 \<le> be_s16 hi lo" "be_s16 hi lo < 32768"
    by (simp_all add: sint_unpack16)
qed

lemma sint_of_nat_small: "n < 32768 \<Longrightarrow> sint (of_nat n :: 16 word) = int n"
  using signed_of_nat [where ?'a = int and ?'b = 16, of n]
  by (simp add: signed_take_bit_int_eq_self)

lemma unat_of_nat_8: "unat (of_nat n :: 8 word) = n mod 256"
  by (simp add: unat_of_nat)

subsection \<open>Reading one sample\<close>

lemma read_frame:
  "reply_at s 0 = Ack bs \<Longrightarrow> length bs = 15 \<Longrightarrow>
   ReadRegisters (INT_STATUS h) (of_nat data_buf_size) (s\<lparr>new_imu_data := False\<rparr>) =
     (Some bs, s\<lparr>new_imu_data := False, imu := issue (ReadRegs (INT_STATUS h) 15) (imu s)\<rparr>)"
  by (simp add: ReadRegisters_eq reply_at_def read_bytes_def data_buf_size_def)

lemma Read_ready:
  assumes "reply_at s 0 = Ack bs" "length bs = 15" "bs ! 0 AND RAW_DATA_RDY_INT h \<noteq> 0"
  shows "fst (Read h s) = True"
    and "accel (snd (Read h s)) =
           [real_of_int (be_s16 (bs ! 3) (bs ! 4)) * accel_scale s * G_MPS2 h,
            real_of_int (be_s16 (bs ! 1) (bs ! 2)) * accel_scale s * G_MPS2 h,
            - (real_of_int (be_s16 (bs ! 5) (bs ! 6)) * accel_scale s * G_MPS2 h)]"
    and "gyro (snd (Read h s)) =
           [real_of_int (be_s16 (bs ! 11) (bs ! 12)) * gyro_scale s * DEG2RAD h,
            real_of_int (be_s16 (bs ! 9) (bs ! 10)) * gyro_scale s * DEG2RAD h,
            - (real_of_int (be_s16 (bs ! 13) (bs ! 14)) * gyro_scale s * DEG2RAD h)]"
    and "temp (snd (Read h s)) = real_of_int (be_s16 (bs ! 7) (bs ! 8)) / TEMP_SCALE h + 35"
  using assms(3)
  by (simp_all add: Read_def Let_def read_frame [OF assms(1,2)] to_float_unpack16)

lemma Read_not_ready:
  assumes "reply_at s 0 = Ack bs" "length bs = 15" "bs ! 0 AND RAW_DATA_RDY_INT h = 0"
  shows "Read h s =
           (False, s\<lparr>new_imu_data := False,
                     imu := issue (ReadRegs (INT_STATUS h) 15) (imu s), data_buf := bs\<rparr>)"
  using assms(3)
  by (simp add: Read_def Let_def read_frame [OF assms(1,2)])

lemma Read_raw_ready:
  assumes "reply_at s 0 = Ack bs" "length bs = 15" "bs ! 0 AND RAW_DATA_RDY_INT h \<noteq> 0"
    and "7 \<le> length values"
  shows "\<exists>s'. Read_raw h values s =
           Some (True, s',
             values[0 := unpack16 (bs ! 1) (bs ! 2), 1 := unpack16 (bs ! 3) (bs ! 4),
                    2 := unpack16 (bs ! 5) (bs ! 6), 6 := unpack16 (bs ! 7) (bs ! 8),
                    3 := unpack16 (bs ! 9) (bs ! 10), 4 := unpack16 (bs ! 11) (bs ! 12),
                    5 := unpack16 (bs ! 13) (bs ! 14)])"
  using assms(3,4)
  by (auto simp add: Read_raw_def Let_def read_frame [OF assms(1,2)] store_def)

lemma Read_raw_not_ready:
  assumes "reply_at s 0 = Ack bs" "length bs = 15" "bs ! 0 AND RAW_DATA_RDY_INT h = 0"
  shows "Read_raw h values s =
           Some (False, s\<lparr>new_imu_data := False,
                           imu := issue (ReadRegs (INT_STATUS h) 15) (imu s), data_buf := bs\<rparr>,
                 values)"
  using assms(3)
  by (simp add: Read_raw_def Let_def read_frame [OF assms(1,2)])

lemma Read_values_not_ready:
  assumes "reply_at s 0 = Ack bs" "length bs = 15" "bs ! 0 AND RAW_DATA_RDY_INT h = 0"
  shows "Read_values h values s =
           Some (False, s\<lparr>new_imu_data := False,
                           imu := issue (ReadRegs (INT_STATUS h) 15) (imu s), data_buf := bs\<rparr>,
                 values)"
  using assms(3)
  by (simp add: Read_values_def Let_def read_frame [OF assms(1,2)])

lemma Read_values_short:
  assumes "reply_at s 0 = Ack bs" "length bs = 15" "bs ! 0 AND RAW_DATA_RDY_INT h \<noteq> 0"
    and "length values < 10"
  shows "Read_values h values s = None"
  using assms(3,4)
  by (simp add: Read_values_def Let_def read_frame [OF assms(1,2)] store_def)

lemma Read_values_ready:
  assumes "reply_at s 0 = Ack bs" "length bs = 15" "bs ! 0 AND RAW_DATA_RDY_INT h \<noteq> 0"
    and "10 \<le> length values"
  shows "\<exists>s'. Read_values h values s =
           Some (True, s',
             values[0 := real_of_int (be_s16 (bs ! 3) (bs ! 4)) * accel_scale s,
                    1 := real_of_int (be_s16 (bs ! 1) (bs ! 2)) * accel_scale s,
                    2 := - (real_of_int (be_s16 (bs ! 5) (bs ! 6)) * accel_scale s),
                    9 := (real_of_int (be_s16 (bs ! 7) (bs ! 8)) - 21) / TEMP_SCALE h + 21,
                    3 := real_of_int (be_s16 (bs ! 11) (bs ! 12)) * gyro_scale s,
                    4 := real_of_int (be_s16 (bs ! 9) (bs ! 10)) * gyro_scale s,
                    5 := - (real_of_int (be_s16 (bs ! 13) (bs ! 14)) * gyro_scale s),
                    7 := (real_of_int (be_s16 (bs ! 7) (bs ! 8)) - 21) / TEMP_SCALE h + 21]) \<and>
           temp s' = (real_of_int (be_s16 (bs ! 7) (bs ! 8)) - 21) / TEMP_SCALE h + 21"
  using assms(3,4)
  by (auto simp add: Read_values_def Let_def read_frame [OF assms(1,2)] store_def
      to_float_unpack16)

lemma example_reply [simp]: "reply_at (example_object rs) k = rs k"
  by (simp add: reply_at_def example_object_def)

text \<open>
  Claim C3. For every 15-byte frame whose status byte has the data-ready bit set, \<open>Read\<close>
  reports new data, and the acceleration it stores is, in this order, the raw Y count,
  the raw X count and the negated raw Z count, each a big-endian signed 16-bit value
  multiplied by the active accelerometer scale and the gravity constant; the angular
  rate is the same permutation of the gyroscope counts multiplied by the active
  gyroscope scale and the degrees-to-radians constant.
\<close>

theorem Read_scaled_and_remapped:
  assumes "reply_at s 0 = Ack bs" and "length bs = 15"
    and "bs ! 0 AND RAW_DATA_RDY_INT h \<noteq> 0"
  shows "fst (Read h s) \<and>
         accel (snd (Read h s)) =
           [real_of_int (be_s16 (bs ! 3) (bs ! 4)) * accel_scale s * G_MPS2 h,
            real_of_int (be_s16 (bs ! 1) (bs ! 2)) * accel_scale s * G_MPS2 h,
            - (real_of_int (be_s16 (bs ! 5) (bs ! 6)) * accel_scale s * G_MPS2 h)] \<and>
         gyro (snd (Read h s)) =
           [real_of_int (be_s16 (bs ! 11) (bs ! 12)) * gyro_scale s * DEG2RAD h,
            real_of_int (be_s16 (bs ! 9) (bs ! 10)) * gyro_scale s * DEG2RAD h,
            - (real_of_int (be_s16 (bs ! 13) (bs ! 14)) * gyro_scale s * DEG2RAD h)]"
  using Read_ready(1-3) [OF assms] by simp

text \<open>
  The frame \<open>ready_frame\<close> carries the accelerometer counts 1, 2, -3 and the gyroscope
  counts 4, 5, -6; with the scales 1 and 2 of the example object and the constants 10 and
  1/50 of the example header the outputs are as follows.
\<close>

theorem Read_scaled_and_remapped_witness:
  "reply_at (example_object ready_device) 0 = Ack ready_frame \<and>
   length ready_frame = 15 \<and>
   ready_frame ! 0 AND RAW_DATA_RDY_INT example_header \<noteq> 0 \<and>
   fst (Read example_header (example_object ready_device)) \<and>
   accel (snd (Read example_header (example_object ready_device))) = [20, 10, 30] \<and>
   gyro (snd (Read example_header (example_object ready_device))) = [1 / 5, 4 / 25, 6 / 25]"
proof -
  have a: "reply_at (example_object ready_device) 0 = Ack ready_frame"
    by (simp add: ready_device_def)
  have b: "length ready_frame = 15"
    by (simp add: ready_frame_def)
  have c: "ready_frame ! 0 AND RAW_DATA_RDY_INT example_header \<noteq> 0"
    by (simp add: ready_frame_def example_header_def)
  have d: "accel_scale (example_object ready_device) = 1"
    "gyro_scale (example_object ready_device) = 2"
    "G_MPS2 example_header = 10" "DEG2RAD example_header = 1 / 50"
    by (simp_all add: example_object_def example_header_def)
  show ?thesis
    using Read_scaled_and_remapped [OF a b c] a b c
    by (simp add: d ready_frame_def be_s16_def)
qed

text \<open>
  Claim C6. For every frame whose status byte has the data-ready bit clear, each of the
  three read variants returns the no-new-data result (\<open>False\<close>) and leaves the previously
  decoded acceleration, angular rate and temperature as they were; the two variants
  that write to a caller's array leave that array as it was, too.
\<close>

theorem Read_without_new_data:
  assumes "reply_at s 0 = Ack bs" and "length bs = 15"
    and "bs ! 0 AND RAW_DATA_RDY_INT h = 0"
  shows "\<not> fst (Read h s) \<and>
         accel (snd (Read h s)) = accel s \<and> gyro (snd (Read h s)) = gyro s \<and>
         temp (snd (Read h s)) = temp s \<and>
         (\<exists>s'. Read_values h values s = Some (False, s', values) \<and>
               accel s' = accel s \<and> gyro s' = gyro s \<and> temp s' = temp s) \<and>
         (\<exists>s'. Read_raw h raw s = Some (False, s', raw) \<and>
               accel s' = accel s \<and> gyro s' = gyro s \<and> temp s' = temp s)"
  by (simp add: Read_not_ready [OF assms] Read_values_not_ready [OF assms]
      Read_raw_not_ready [OF assms])

theorem Read_without_new_data_witness:
  "reply_at (example_object stale_device) 0 = Ack stale_frame \<and>
   length stale_frame = 15 \<and>
   stale_frame ! 0 AND RAW_DATA_RDY_INT example_header = 0 \<and>
   \<not> fst (Read example_header (example_object stale_device)) \<and>
   accel (snd (Read example_header (example_object stale_device))) = [0, 0, 0] \<and>
   gyro (snd (Read example_header (example_object stale_device))) = [0, 0, 0] \<and>
   temp (snd (Read example_header (example_object stale_device))) = 0"
proof -
  have a: "reply_at (example_object stale_device) 0 = Ack stale_frame"
    by (simp add: stale_device_def)
  have b: "length stale_frame = 15"
    by (simp add: stale_frame_def)
  have c: "stale_frame ! 0 AND RAW_DATA_RDY_INT example_header = 0"
    by (simp add: stale_frame_def example_header_def)
  have d: "accel (example_object stale_device) = [0, 0, 0]"
    "gyro (example_object stale_device) = [0, 0, 0]" "temp (example_object stale_device) = 0"
    by (simp_all add: example_object_def)
  show ?thesis
    using Read_without_new_data [OF a b c, of "[]" "[]"] a b c
    by (simp add: d)
qed

text \<open>
  Claim C9. For every 15-byte frame with the data-ready bit set and every active scale:
  the counts that \<open>Read_raw\<close> puts at the indices 0 to 5 of its array, scaled by hand with
  the active scale and the gravity or degrees-to-radians constant and remapped (X from
  raw Y, Y from raw X, Z from raw Z negated), are exactly the acceleration and the
  angular rate that \<open>Read\<close> stores for the same frame.
\<close>

theorem Read_raw_round_trip:
  assumes "reply_at s 0 = Ack bs" and "length bs = 15"
    and "bs ! 0 AND RAW_DATA_RDY_INT h \<noteq> 0"
    and "7 \<le> length values"
  shows "\<exists>s' raw. Read_raw h values s = Some (True, s', raw) \<and>
           accel (snd (Read h s)) =
             remap_scaled (raw ! 0) (raw ! 1) (raw ! 2) (accel_scale s) (G_MPS2 h) \<and>
           gyro (snd (Read h s)) =
             remap_scaled (raw ! 3) (raw ! 4) (raw ! 5) (gyro_scale s) (DEG2RAD h)"
proof -
  obtain s' where
    r: "Read_raw h values s =
          Some (True, s',
             values[0 := unpack16 (bs ! 1) (bs ! 2), 1 := unpack16 (bs ! 3) (bs ! 4),
                    2 := unpack16 (bs ! 5) (bs ! 6), 6 := unpack16 (bs ! 7) (bs ! 8),
                    3 := unpack16 (bs ! 9) (bs ! 10), 4 := unpack16 (bs ! 11) (bs ! 12),
                    5 := unpack16 (bs ! 13) (bs ! 14)])"
    using Read_raw_ready [OF assms] by blast
  have "values \<noteq> []"
    using assms(4) by auto
  then show ?thesis
    using assms(4)
    by (simp add: r Read_ready(2,3) [OF assms(1-3)] remap_scaled_def signed_unpack16)
qed

theorem Read_raw_round_trip_witness:
  "reply_at (example_object ready_device) 0 = Ack ready_frame \<and>
   length ready_frame = 15 \<and>
   ready_frame ! 0 AND RAW_DATA_RDY_INT example_header \<noteq> 0 \<and>
   7 \<le> length (replicate 7 (0 :: 16 word)) \<and>
   (\<exists>s' raw. Read_raw example_header (replicate 7 0) (example_object ready_device) =
        Some (True, s', raw) \<and>
      accel (snd (Read example_header (example_object ready_device))) =
        remap_scaled (raw ! 0) (raw ! 1) (raw ! 2) 1 10 \<and>
      gyro (snd (Read example_header (example_object ready_device))) =
        remap_scaled (raw ! 3) (raw ! 4) (raw ! 5) 2 (1 / 50))"
proof -
  have a: "reply_at (example_object ready_device) 0 = Ack ready_frame"
    by (simp add: ready_device_def)
  have b: "length ready_frame = 15"
    by (simp add: ready_frame_def)
  have c: "ready_frame ! 0 AND RAW_DATA_RDY_INT example_header \<noteq> 0"
    by (simp add: ready_frame_def example_header_def)
  have l: "7 \<le> length (replicate 7 (0 :: 16 word))"
    by simp
  have d: "accel_scale (example_object ready_device) = 1"
    "gyro_scale (example_object ready_device) = 2"
    "G_MPS2 example_header = 10" "DEG2RAD example_header = 1 / 50"
    by (simp_all add: example_object_def example_header_def)
  show ?thesis
    using Read_raw_round_trip [OF a b c l] a b c
    by (simp add: d)
qed

text \<open>
  Claim C10. On a successful call the array variant of the read writes the indices 0 to 5
  of the caller's array (the remapped acceleration, then the remapped angular rate, each
  count times the active scale only, without the gravity or degrees-to-radians
  constant), index 9 and index 7 (both the temperature \<open>(count - 21) / TEMP_SCALE + 21\<close>,
  which is also the temperature it stores in the object); the indices 6 and 8 keep
  their values, and so does every index above 9. An array of fewer than 10 elements is
  too short: the call then writes outside of it. The updates are listed in the order
  of the source.
\<close>

theorem Read_values_writes:
  assumes "reply_at s 0 = Ack bs" and "length bs = 15"
    and "bs ! 0 AND RAW_DATA_RDY_INT h \<noteq> 0"
  shows "(length values < 10 \<longrightarrow> Read_values h values s = None) \<and>
         (10 \<le> length values \<longrightarrow>
           (\<exists>s' out. Read_values h values s = Some (True, s', out) \<and>
              out = values[0 := real_of_int (be_s16 (bs ! 3) (bs ! 4)) * accel_scale s,
                           1 := real_of_int (be_s16 (bs ! 1) (bs ! 2)) * accel_scale s,
                           2 := - (real_of_int (be_s16 (bs ! 5) (bs ! 6)) * accel_scale s),
                           9 := (real_of_int (be_s16 (bs ! 7) (bs ! 8)) - 21) / TEMP_SCALE h + 21,
                           3 := real_of_int (be_s16 (bs ! 11) (bs ! 12)) * gyro_scale s,
                           4 := real_of_int (be_s16 (bs ! 9) (bs ! 10)) * gyro_scale s,
                           5 := - (real_of_int (be_s16 (bs ! 13) (bs ! 14)) * gyro_scale s),
                           7 := (real_of_int (be_s16 (bs ! 7) (bs ! 8)) - 21) / TEMP_SCALE h + 21] \<and>
              temp s' = out ! 7 \<and> out ! 6 = values ! 6 \<and> out ! 8 = values ! 8 \<and>
              drop 10 out = drop 10 values \<and> length out = length values))"
proof (intro conjI impI)
  assume "length values < 10"
  then show "Read_values h values s = None"
    by (rule Read_values_short [OF assms])
next
  assume l: "10 \<le> length values"
  obtain s' where
    r: "Read_values h values s =
          Some (True, s',
             values[0 := real_of_int (be_s16 (bs ! 3) (bs ! 4)) * accel_scale s,
                    1 := real_of_int (be_s16 (bs ! 1) (bs ! 2)) * accel_scale s,
                    2 := - (real_of_int (be_s16 (bs ! 5) (bs ! 6)) * accel_scale s),
                    9 := (real_of_int (be_s16 (bs ! 7) (bs ! 8)) - 21) / TEMP_SCALE h + 21,
                    3 := real_of_int (be_s16 (bs ! 11) (bs ! 12)) * gyro_scale s,
                    4 := real_of_int (be_s16 (bs ! 9) (bs ! 10)) * gyro_scale s,
                    5 := - (real_of_int (be_s16 (bs ! 13) (bs ! 14)) * gyro_scale s),
                    7 := (real_of_int (be_s16 (bs ! 7) (bs ! 8)) - 21) / TEMP_SCALE h + 21])"
    and t: "temp s' = (real_of_int (be_s16 (bs ! 7) (bs ! 8)) - 21) / TEMP_SCALE h + 21"
    using Read_values_ready [OF assms l] by blast
  show "\<exists>s' out. Read_values h values s = Some (True, s', out) \<and>
              out = values[0 := real_of_int (be_s16 (bs ! 3) (bs ! 4)) * accel_scale s,
                           1 := real_of_int (be_s16 (bs ! 1) (bs ! 2)) * accel_scale s,
                           2 := - (real_of_int (be_s16 (bs ! 5) (bs ! 6)) * accel_scale s),
                           9 := (real_of_int (be_s16 (bs ! 7) (bs ! 8)) - 21) / TEMP_SCALE h + 21,
                           3 := real_of_int (be_s16 (bs ! 11) (bs ! 12)) * gyro_scale s,
                           4 := real_of_int (be_s16 (bs ! 9) (bs ! 10)) * gyro_scale s,
                           5 := - (real_of_int (be_s16 (bs ! 13) (bs ! 14)) * gyro_scale s),
                           7 := (real_of_int (be_s16 (bs ! 7) (bs ! 8)) - 21) / TEMP_SCALE h + 21] \<and>
              temp s' = out ! 7 \<and> out ! 6 = values ! 6 \<and> out ! 8 = values ! 8 \<and>
              drop 10 out = drop 10 values \<and> length out = length values"
    using l t by (simp add: r)
qed

theorem Read_values_writes_witness:
  "reply_at (example_object ready_device) 0 = Ack ready_frame \<and>
   length ready_frame = 15 \<and>
   ready_frame ! 0 AND RAW_DATA_RDY_INT example_header \<noteq> 0 \<and>
   Read_values example_header (replicate 9 7) (example_object ready_device) = None \<and>
   (\<exists>s'. Read_values example_header (replicate 11 7) (example_object ready_device) =
       Some (True, s', [2, 1, 3, 10, 8, 12, 7, 22, 7, 22, 7]))"
proof -
  have a: "reply_at (example_object ready_device) 0 = Ack ready_frame"
    by (simp add: ready_device_def)
  have b: "length ready_frame = 15"
    by (simp add: ready_frame_def)
  have c: "ready_frame ! 0 AND RAW_DATA_RDY_INT example_header \<noteq> 0"
    by (simp add: ready_frame_def example_header_def)
  have d: "accel_scale (example_object ready_device) = 1"
    "gyro_scale (example_object ready_device) = 2" "TEMP_SCALE example_header = 340"
    by (simp_all add: example_object_def example_header_def)
  have r: "replicate 11 (7 :: real) = [7, 7, 7, 7, 7, 7, 7, 7, 7, 7, 7]"
    by (simp add: numeral_eq_Suc)
  show ?thesis
    using Read_values_writes [OF a b c, of "replicate 9 7"]
      Read_values_writes [OF a b c, of "replicate 11 7"] a b c
    by (auto simp add: d r ready_frame_def be_s16_def)
qed

subsection \<open>Configuration\<close>

lemma accel_validate:
  "(if r = ACCEL_RANGE_2G h then
      Some (s\<lparr>requested_accel_range := r, requested_accel_scale := 2 / 32767.5\<rparr>)
    else if r = ACCEL_RANGE_4G h then
      Some (s\<lparr>requested_accel_range := r, requested_accel_scale := 4 / 32767.5\<rparr>)
    else if r = ACCEL_RANGE_8G h then
      Some (s\<lparr>requested_accel_range := r, requested_accel_scale := 8 / 32767.5\<rparr>)
    else if r = ACCEL_RANGE_16G h then
      Some (s\<lparr>requested_accel_range := r, requested_accel_scale := 16 / 32767.5\<rparr>)
    else None) =
   map_option (\<lambda>sc. s\<lparr>requested_accel_range := r, requested_accel_scale := sc\<rparr>)
     (accel_request h r)"
  by (simp add: accel_request_def)

lemma gyro_validate:
  "(if r = GYRO_RANGE_250DPS h then
      Some (s\<lparr>requested_gyro_range := r, requested_gyro_scale := 250 / 32767.5\<rparr>)
    else if r = GYRO_RANGE_500DPS h then
      Some (s\<lparr>requested_gyro_range := r, requested_gyro_scale := 500 / 32767.5\<rparr>)
    else if r = GYRO_RANGE_1000DPS h then
      Some (s\<lparr>requested_gyro_range := r, requested_gyro_scale := 1000 / 32767.5\<rparr>)
    else if r = GYRO_RANGE_2000DPS h then
      Some (s\<lparr>requested_gyro_range := r, requested_gyro_scale := 2000 / 32767.5\<rparr>)
    else None) =
   map_option (\<lambda>sc. s\<lparr>requested_gyro_range := r, requested_gyro_scale := sc\<rparr>)
     (gyro_request h r)"
  by (simp add: gyro_request_def)

lemma dlpf_validate:
  "(if dlpf = DLPF_BANDWIDTH_184HZ h then Some (s\<lparr>requested_dlpf := dlpf\<rparr>)
    else if dlpf = DLPF_BANDWIDTH_92HZ h then Some (s\<lparr>requested_dlpf := dlpf\<rparr>)
    else if dlpf = DLPF_BANDWIDTH_41HZ h then Some (s\<lparr>requested_dlpf := dlpf\<rparr>)
    else if dlpf = DLPF_BANDWIDTH_20HZ h then Some (s\<lparr>requested_dlpf := dlpf\<rparr>)
    else if dlpf = DLPF_BANDWIDTH_10HZ h then Some (s\<lparr>requested_dlpf := dlpf\<rparr>)
    else if dlpf = DLPF_BANDWIDTH_5HZ h then Some (s\<lparr>requested_dlpf := dlpf\<rparr>)
    else None) =
   (if dlpf \<in> set (dlpf_enumerators h) then Some (s\<lparr>requested_dlpf := dlpf\<rparr>) else None)"
  by (simp add: dlpf_enumerators_def)

text \<open>Each configuration function in closed form.\<close>

lemma ConfigAccelRange_eq:
  "ConfigAccelRange h r s =
     (case accel_request h r of
        None \<Rightarrow> (False, s)
      | Some sc \<Rightarrow>
          if write_ok (reply_at s 0) then
            (True, s\<lparr>requested_accel_range := r, requested_accel_scale := sc,
                 imu := issue (WriteReg (ACCEL_CONFIG h) r) (imu s),
                 accel_range := r, accel_scale := sc\<rparr>)
          else
            (False, s\<lparr>requested_accel_range := r, requested_accel_scale := sc,
                 imu := issue (WriteReg (ACCEL_CONFIG h) r) (imu s)\<rparr>))"
  unfolding ConfigAccelRange_def accel_validate
  by (cases "accel_request h r")
    (simp_all add: WriteRegister_eq reply_at_def issue_def split: bool.split)

lemma ConfigGyroRange_eq:
  "ConfigGyroRange h r s =
     (case gyro_request h r of
        None \<Rightarrow> (False, s)
      | Some sc \<Rightarrow>
          if write_ok (reply_at s 0) then
            (True, s\<lparr>requested_gyro_range := r, requested_gyro_scale := sc,
                 imu := issue (WriteReg (GYRO_CONFIG h) r) (imu s),
                 gyro_range := r, gyro_scale := sc\<rparr>)
          else
            (False, s\<lparr>requested_gyro_range := r, requested_gyro_scale := sc,
                 imu := issue (WriteReg (GYRO_CONFIG h) r) (imu s)\<rparr>))"
  unfolding ConfigGyroRange_def gyro_validate
  by (cases "gyro_request h r")
    (simp_all add: WriteRegister_eq reply_at_def issue_def split: bool.split)

lemma ConfigSrd_eq:
  "ConfigSrd h d s =
     (if write_ok (reply_at s 0)
      then (True, s\<lparr>imu := issue (WriteReg (SMPLRT_DIV h) d) (imu s), srd := d\<rparr>)
      else (False, s\<lparr>imu := issue (WriteReg (SMPLRT_DIV h) d) (imu s)\<rparr>))"
  by (simp add: ConfigSrd_def WriteRegister_eq reply_at_def issue_def split: bool.split)

lemma ConfigDlpfBandwidth_eq:
  "ConfigDlpfBandwidth h d s =
    (if d \<notin> set (dlpf_enumerators h) then (False, s)
     else if \<not> write_ok (reply_at s 0) then
       (False, s\<lparr>requested_dlpf := d, imu := issue (WriteReg (ACCEL_CONFIG2 h) d) (imu s)\<rparr>)
     else if \<not> write_ok (reply_at s 1) then
       (False, s\<lparr>requested_dlpf := d,
          imu := issue (WriteReg (CONFIG h) d) (issue (WriteReg (ACCEL_CONFIG2 h) d) (imu s))\<rparr>)
     else
       (True, s\<lparr>requested_dlpf := d,
          imu := issue (WriteReg (CONFIG h) d) (issue (WriteReg (ACCEL_CONFIG2 h) d) (imu s)),
          dlpf_bandwidth := d\<rparr>))"
  unfolding ConfigDlpfBandwidth_def dlpf_validate
  by (simp add: WriteRegister_eq reply_at_def issue_def)

lemma accel_request_Some_iff: "(accel_request h r \<noteq> None) = (r \<in> set (accel_enumerators h))"
  by (cases "r = ACCEL_RANGE_2G h"; cases "r = ACCEL_RANGE_4G h";
      cases "r = ACCEL_RANGE_8G h"; cases "r = ACCEL_RANGE_16G h")
    (simp_all add: accel_request_def accel_enumerators_def)

lemma gyro_request_Some_iff: "(gyro_request h r \<noteq> None) = (r \<in> set (gyro_enumerators h))"
  by (cases "r = GYRO_RANGE_250DPS h"; cases "r = GYRO_RANGE_500DPS h";
      cases "r = GYRO_RANGE_1000DPS h"; cases "r = GYRO_RANGE_2000DPS h")
    (simp_all add: gyro_request_def gyro_enumerators_def)

lemma accel_request_table:
  "distinct (map fst (accel_full_scale h)) \<Longrightarrow> (e, fs) \<in> set (accel_full_scale h) \<Longrightarrow>
   accel_request h e = Some (fs / 32767.5)"
  by (auto simp add: accel_full_scale_def accel_request_def)

lemma gyro_request_table:
  "distinct (map fst (gyro_full_scale h)) \<Longrightarrow> (e, fs) \<in> set (gyro_full_scale h) \<Longrightarrow>
   gyro_request h e = Some (fs / 32767.5)"
  by (auto simp add: gyro_full_scale_def gyro_request_def)

lemma accel_request_None:
  "r \<notin> fst ` set (accel_full_scale h) \<Longrightarrow> accel_request h r = None"
  by (simp add: accel_full_scale_def accel_request_def)

lemma gyro_request_None:
  "r \<notin> fst ` set (gyro_full_scale h) \<Longrightarrow> gyro_request h r = None"
  by (simp add: gyro_full_scale_def gyro_request_def)

lemma ConfigAccelRange_fst:
  "fst (ConfigAccelRange h r s) = (r \<in> set (accel_enumerators h) \<and> write_ok (reply_at s 0))"
  using accel_request_Some_iff [of h r]
  by (cases "accel_request h r") (simp_all add: ConfigAccelRange_eq)

lemma ConfigGyroRange_fst:
  "fst (ConfigGyroRange h r s) = (r \<in> set (gyro_enumerators h) \<and> write_ok (reply_at s 0))"
  using gyro_request_Some_iff [of h r]
  by (cases "gyro_request h r") (simp_all add: ConfigGyroRange_eq)

lemma ConfigAccelRange_failed:
  "\<not> fst (ConfigAccelRange h r s) \<Longrightarrow>
   active_config (snd (ConfigAccelRange h r s)) = active_config s"
  by (cases "accel_request h r")
    (simp_all add: ConfigAccelRange_eq active_config_def split: if_splits)

lemma ConfigGyroRange_failed:
  "\<not> fst (ConfigGyroRange h r s) \<Longrightarrow>
   active_config (snd (ConfigGyroRange h r s)) = active_config s"
  by (cases "gyro_request h r")
    (simp_all add: ConfigGyroRange_eq active_config_def split: if_splits)

lemma ConfigDlpfBandwidth_failed:
  "\<not> fst (ConfigDlpfBandwidth h d s) \<Longrightarrow>
   active_config (snd (ConfigDlpfBandwidth h d s)) = active_config s"
  by (simp add: ConfigDlpfBandwidth_eq active_config_def split: if_splits)

lemma ConfigSrd_failed:
  "\<not> fst (ConfigSrd h v s) \<Longrightarrow> active_config (snd (ConfigSrd h v s)) = active_config s"
  by (simp add: ConfigSrd_eq active_config_def split: if_splits)

text \<open>
  Claim C4. Each of the four configuration operations succeeds exactly when its input is
  accepted and every register write it issues is acknowledged (one write for the
  ranges and the divider, two for the bandwidth; the divider accepts every byte), and
  whenever it does not succeed, because the input is rejected or a write fails, the
  active range, scale, bandwidth and divider are all unchanged. So an active field
  changes only after the writes to the hardware have succeeded.
\<close>

theorem active_config_changes_only_after_write:
  "(fst (ConfigAccelRange h ra s) =
      (ra \<in> set (accel_enumerators h) \<and> write_ok (reply_at s 0))) \<and>
   (\<not> fst (ConfigAccelRange h ra s) \<longrightarrow>
      active_config (snd (ConfigAccelRange h ra s)) = active_config s) \<and>
   (fst (ConfigGyroRange h rg s) =
      (rg \<in> set (gyro_enumerators h) \<and> write_ok (reply_at s 0))) \<and>
   (\<not> fst (ConfigGyroRange h rg s) \<longrightarrow>
      active_config (snd (ConfigGyroRange h rg s)) = active_config s) \<and>
   (fst (ConfigDlpfBandwidth h d s) =
      (d \<in> set (dlpf_enumerators h) \<and> write_ok (reply_at s 0) \<and> write_ok (reply_at s 1))) \<and>
   (\<not> fst (ConfigDlpfBandwidth h d s) \<longrightarrow>
      active_config (snd (ConfigDlpfBandwidth h d s)) = active_config s) \<and>
   (fst (ConfigSrd h v s) = write_ok (reply_at s 0)) \<and>
   (\<not> fst (ConfigSrd h v s) \<longrightarrow> active_config (snd (ConfigSrd h v s)) = active_config s)"
proof (intro conjI impI)
  show "fst (ConfigAccelRange h ra s) =
          (ra \<in> set (accel_enumerators h) \<and> write_ok (reply_at s 0))"
    by (rule ConfigAccelRange_fst)
  show "fst (ConfigGyroRange h rg s) =
          (rg \<in> set (gyro_enumerators h) \<and> write_ok (reply_at s 0))"
    by (rule ConfigGyroRange_fst)
  show "fst (ConfigDlpfBandwidth h d s) =
          (d \<in> set (dlpf_enumerators h) \<and> write_ok (reply_at s 0) \<and> write_ok (reply_at s 1))"
    by (simp add: ConfigDlpfBandwidth_eq)
  show "fst (ConfigSrd h v s) = write_ok (reply_at s 0)"
    by (simp add: ConfigSrd_eq)
qed (fact ConfigAccelRange_failed ConfigGyroRange_failed ConfigDlpfBandwidth_failed
  ConfigSrd_failed)+

text \<open>
  In front of a device that acknowledges nothing, all four operations fail on valid
  inputs and the active configuration of the example object stays what it was; in
  front of a device that acknowledges everything, the same calls succeed.
\<close>

theorem active_config_changes_only_after_write_witness:
  "\<not> fst (ConfigAccelRange example_header 0x10 (example_object no_device)) \<and>
   active_config (snd (ConfigAccelRange example_header 0x10 (example_object no_device))) =
     ((0, 1), (0, 2), 0, 0) \<and>
   \<not> fst (ConfigGyroRange example_header 0x18 (example_object no_device)) \<and>
   active_config (snd (ConfigGyroRange example_header 0x18 (example_object no_device))) =
     ((0, 1), (0, 2), 0, 0) \<and>
   \<not> fst (ConfigDlpfBandwidth example_header 0x03 (example_object no_device)) \<and>
   active_config (snd (ConfigDlpfBandwidth example_header 0x03 (example_object no_device))) =
     ((0, 1), (0, 2), 0, 0) \<and>
   \<not> fst (ConfigSrd example_header 9 (example_object no_device)) \<and>
   active_config (snd (ConfigSrd example_header 9 (example_object no_device))) =
     ((0, 1), (0, 2), 0, 0) \<and>
   fst (ConfigAccelRange example_header 0x10 (example_object good_device)) \<and>
   fst (ConfigSrd example_header 9 (example_object good_device))"
proof -
  have a: "active_config (example_object no_device) = ((0, 1), (0, 2), 0, 0)"
    by (simp add: active_config_def example_object_def)
  have e: "(0x10 :: 8 word) \<in> set (accel_enumerators example_header)"
    "(0x18 :: 8 word) \<in> set (gyro_enumerators example_header)"
    "(0x03 :: 8 word) \<in> set (dlpf_enumerators example_header)"
    by (simp_all add: accel_enumerators_def gyro_enumerators_def dlpf_enumerators_def
        example_header_def)
  show ?thesis
    using active_config_changes_only_after_write
      [of example_header "0x10" "example_object no_device" "0x18" "0x03" 9]
      active_config_changes_only_after_write
      [of example_header "0x10" "example_object good_device" "0x18" "0x03" 9]
    by (simp add: a e no_device_def good_device_def write_ok_def)
qed

text \<open>
  Claim C5. Provided the enumerators of each range type are distinct values (as the
  \<^verbatim>\<open>case\<close> labels of a \<^verbatim>\<open>switch\<close> are): for each of the four accelerometer ranges and each of
  the four gyroscope ranges, a successful range configuration makes that range the
  active range and its full scale divided by 32767.5 the active scale; for any input
  outside the enumerators the call returns failure and leaves the whole object,
  and so the record of issued register writes and the active range and scale, as it was.
\<close>

theorem range_scale_is_full_scale_over_32767_5:
  assumes "distinct (map fst (accel_full_scale h))"
    and "distinct (map fst (gyro_full_scale h))"
  shows "((ea, fa) \<in> set (accel_full_scale h) \<and> fst (ConfigAccelRange h ea s) \<longrightarrow>
            accel_range (snd (ConfigAccelRange h ea s)) = ea \<and>
            accel_scale (snd (ConfigAccelRange h ea s)) = fa / 32767.5) \<and>
         (ra \<notin> fst ` set (accel_full_scale h) \<longrightarrow> ConfigAccelRange h ra s = (False, s)) \<and>
         ((eg, fg) \<in> set (gyro_full_scale h) \<and> fst (ConfigGyroRange h eg s) \<longrightarrow>
            gyro_range (snd (ConfigGyroRange h eg s)) = eg \<and>
            gyro_scale (snd (ConfigGyroRange h eg s)) = fg / 32767.5) \<and>
         (rg \<notin> fst ` set (gyro_full_scale h) \<longrightarrow> ConfigGyroRange h rg s = (False, s))"
proof (intro conjI impI)
  assume "(ea, fa) \<in> set (accel_full_scale h) \<and> fst (ConfigAccelRange h ea s)"
  then have r: "accel_request h ea = Some (fa / 32767.5)" and ok: "fst (ConfigAccelRange h ea s)"
    using accel_request_table [OF assms(1)] by simp_all
  show "accel_range (snd (ConfigAccelRange h ea s)) = ea"
    using ok by (simp add: ConfigAccelRange_eq r split: if_splits)
  show "accel_scale (snd (ConfigAccelRange h ea s)) = fa / 32767.5"
    using ok by (simp add: ConfigAccelRange_eq r split: if_splits)
next
  assume "ra \<notin> fst ` set (accel_full_scale h)"
  then show "ConfigAccelRange h ra s = (False, s)"
    by (simp add: ConfigAccelRange_eq accel_request_None)
next
  assume "(eg, fg) \<in> set (gyro_full_scale h) \<and> fst (ConfigGyroRange h eg s)"
  then have r: "gyro_request h eg = Some (fg / 32767.5)" and ok: "fst (ConfigGyroRange h eg s)"
    using gyro_request_table [OF assms(2)] by simp_all
  show "gyro_range (snd (ConfigGyroRange h eg s)) = eg"
    using ok by (simp add: ConfigGyroRange_eq r split: if_splits)
  show "gyro_scale (snd (ConfigGyroRange h eg s)) = fg / 32767.5"
    using ok by (simp add: ConfigGyroRange_eq r split: if_splits)
next
  assume "rg \<notin> fst ` set (gyro_full_scale h)"
  then show "ConfigGyroRange h rg s = (False, s)"
    by (simp add: ConfigGyroRange_eq gyro_request_None)
qed

theorem range_scale_is_full_scale_over_32767_5_witness:
  "distinct (map fst (accel_full_scale example_header)) \<and>
   distinct (map fst (gyro_full_scale example_header)) \<and>
   (0x10, 8) \<in> set (accel_full_scale example_header) \<and>
   fst (ConfigAccelRange example_header 0x10 (example_object good_device)) \<and>
   accel_range (snd (ConfigAccelRange example_header 0x10 (example_object good_device))) = 0x10 \<and>
   accel_scale (snd (ConfigAccelRange example_header 0x10 (example_object good_device))) =
     8 / 32767.5 \<and>
   0x20 \<notin> fst ` set (accel_full_scale example_header) \<and>
   ConfigAccelRange example_header 0x20 (example_object good_device) =
     (False, example_object good_device) \<and>
   (0x08, 500) \<in> set (gyro_full_scale example_header) \<and>
   fst (ConfigGyroRange example_header 0x08 (example_object good_device)) \<and>
   gyro_range (snd (ConfigGyroRange example_header 0x08 (example_object good_device))) = 0x08 \<and>
   gyro_scale (snd (ConfigGyroRange example_header 0x08 (example_object good_device))) =
     500 / 32767.5 \<and>
   0x01 \<notin> fst ` set (gyro_full_scale example_header) \<and>
   ConfigGyroRange example_header 0x01 (example_object good_device) =
     (False, example_object good_device)"
proof -
  have da: "distinct (map fst (accel_full_scale example_header))"
    and dg: "distinct (map fst (gyro_full_scale example_header))"
    by (simp_all add: accel_full_scale_def gyro_full_scale_def example_header_def)
  have m: "(0x10, 8) \<in> set (accel_full_scale example_header)"
    "0x20 \<notin> fst ` set (accel_full_scale example_header)"
    "(0x08, 500) \<in> set (gyro_full_scale example_header)"
    "0x01 \<notin> fst ` set (gyro_full_scale example_header)"
    by (simp_all add: accel_full_scale_def gyro_full_scale_def example_header_def)
  have ok: "fst (ConfigAccelRange example_header 0x10 (example_object good_device))"
    "fst (ConfigGyroRange example_header 0x08 (example_object good_device))"
    by (simp_all add: ConfigAccelRange_fst ConfigGyroRange_fst accel_enumerators_def
        gyro_enumerators_def example_header_def good_device_def write_ok_def)
  show ?thesis
    using range_scale_is_full_scale_over_32767_5 [OF da dg,
        of "0x10" 8 "example_object good_device" "0x20" "0x08" 500 "0x01"] da dg m ok
    by simp
qed

text \<open>
  Claim C8. For each of the six bandwidth enumerators, \<open>ConfigDlpfBandwidth\<close> writes the
  selector it was given to the secondary accelerometer filter register
  \<^verbatim>\<open>ACCEL_CONFIG2_\<close> and, that write being acknowledged, the identical selector to the
  filter and configuration register \<^verbatim>\<open>CONFIG_\<close>, and issues nothing else (when the first
  write is not acknowledged the call fails after it, as every operation of the driver
  does on a transport failure); for an input outside the six it returns failure and
  leaves the whole object, and so the record of issued register writes, as it was.
\<close>

theorem ConfigDlpfBandwidth_writes_same_selector:
  "(d \<in> set (dlpf_enumerators h) \<longrightarrow>
      issued (imu (snd (ConfigDlpfBandwidth h d s))) =
        issued (imu s) @
        (if write_ok (reply_at s 0)
         then [WriteReg (ACCEL_CONFIG2 h) d, WriteReg (CONFIG h) d]
         else [WriteReg (ACCEL_CONFIG2 h) d])) \<and>
   (d' \<notin> set (dlpf_enumerators h) \<longrightarrow> ConfigDlpfBandwidth h d' s = (False, s))"
  by (simp add: ConfigDlpfBandwidth_eq)

theorem ConfigDlpfBandwidth_writes_same_selector_witness:
  "0x03 \<in> set (dlpf_enumerators example_header) \<and>
   write_ok (reply_at (example_object good_device) 0) \<and>
   issued (imu (snd (ConfigDlpfBandwidth example_header 0x03 (example_object good_device)))) =
     [WriteReg 0x1D 0x03, WriteReg 0x1A 0x03] \<and>
   0x07 \<notin> set (dlpf_enumerators example_header) \<and>
   ConfigDlpfBandwidth example_header 0x07 (example_object good_device) =
     (False, example_object good_device)"
proof -
  have m: "0x03 \<in> set (dlpf_enumerators example_header)"
    "0x07 \<notin> set (dlpf_enumerators example_header)"
    by (simp_all add: dlpf_enumerators_def example_header_def)
  have w: "write_ok (reply_at (example_object good_device) 0)"
    by (simp add: good_device_def write_ok_def)
  have i: "issued (imu (example_object good_device)) = []"
    "ACCEL_CONFIG2 example_header = 0x1D" "CONFIG example_header = 0x1A"
    by (simp_all add: example_object_def example_header_def)
  show ?thesis
    using ConfigDlpfBandwidth_writes_same_selector
      [of "0x03" example_header "example_object good_device" "0x07"] m w
    by (simp add: i)
qed

subsection \<open>Initialisation\<close>

text \<open>
  What \<open>until_first_failure\<close> computes: when every step succeeds, all of them are issued
  and the result is success; when step \<open>i\<close> is the first to fail, exactly the steps up to
  and including \<open>i\<close> are issued and the result is failure.
\<close>

lemma until_first_failure_all_ok:
  "(\<And>i. i < length ops \<Longrightarrow> ok (ops ! i) (rs (n + i))) \<Longrightarrow>
   until_first_failure ok rs n ops = (True, ops)"
proof (induction ops arbitrary: n)
  case Nil
  then show ?case by simp
next
  case (Cons op ops)
  have "ok op (rs n)"
    using Cons.prems [of 0] by simp
  moreover have "until_first_failure ok rs (Suc n) ops = (True, ops)"
  proof (rule Cons.IH)
    fix i assume "i < length ops"
    then show "ok (ops ! i) (rs (Suc n + i))"
      using Cons.prems [of "Suc i"] by simp
  qed
  ultimately show ?case by simp
qed

lemma until_first_failure_stops:
  "i < length ops \<Longrightarrow> \<not> ok (ops ! i) (rs (n + i)) \<Longrightarrow>
   (\<And>j. j < i \<Longrightarrow> ok (ops ! j) (rs (n + j))) \<Longrightarrow>
   until_first_failure ok rs n ops = (False, take (Suc i) ops)"
proof (induction ops arbitrary: n i)
  case Nil
  then show ?case by simp
next
  case (Cons op ops)
  show ?case
  proof (cases i)
    case 0
    then show ?thesis using Cons.prems(2) by simp
  next
    case (Suc k)
    have "ok op (rs n)"
      using Cons.prems(3) [of 0] Suc by simp
    moreover have "until_first_failure ok rs (Suc n) ops = (False, take (Suc k) ops)"
    proof (rule Cons.IH)
      show "k < length ops" using Cons.prems(1) Suc by simp
      show "\<not> ok (ops ! k) (rs (Suc n + k))" using Cons.prems(2) Suc by simp
      fix j assume "j < k"
      then show "ok (ops ! j) (rs (Suc n + j))"
        using Cons.prems(3) [of "Suc j"] Suc by simp
    qed
    ultimately show ?thesis using Suc by simp
  qed
qed


lemma accel_request_16G: "\<exists>sc. accel_request h (ACCEL_RANGE_16G h) = Some sc"
  unfolding accel_request_def by (simp only: if_True split: if_split) blast

lemma gyro_request_2000: "\<exists>sc. gyro_request h (GYRO_RANGE_2000DPS h) = Some sc"
  unfolding gyro_request_def by (simp only: if_True split: if_split) blast

text \<open>
  One lemma for each kind of step of \<open>Begin\<close>: the step followed by the rest \<open>K\<close> of
  the function behaves as a run that starts with the operation of the step.
\<close>

lemma reply_at_issue [simp]:
  "reply_at (s\<lparr>imu := issue op (imu s)\<rparr>) k = reply_at s (Suc k)"
  by (simp add: reply_at_def issue_def)

lemma run_Cons_ok:
  "step_succeeds h op (reply_at t 0) \<Longrightarrow> after t [op] t' \<Longrightarrow> run h t (op # ops) = run h t' ops"
  by (simp add: run_def after_def reply_at_def)

lemma run_Cons_fail:
  "\<not> step_succeeds h op (reply_at t 0) \<Longrightarrow> run h t (op # ops) = (False, issued (imu t) @ [op])"
  by (simp add: run_def reply_at_def)

lemma after_nil: "after t [] t"
  by (simp add: after_def)

lemma step_write:
  assumes "\<And>t'. after t [WriteReg reg d] t' \<Longrightarrow> obs (K t') = run h t' ops"
  shows "obs (case WriteRegister reg d t of (False, x) \<Rightarrow> (False, x) | (True, x) \<Rightarrow> K x) =
         run h t (WriteReg reg d # ops)"
proof (cases "write_ok (reply_at t 0)")
  case True
  let ?t = "t\<lparr>imu := issue (WriteReg reg d) (imu t)\<rparr>"
  have a: "after t [WriteReg reg d] ?t"
    by (simp add: after_def)
  have "run h t (WriteReg reg d # ops) = run h ?t ops"
    using True a by (intro run_Cons_ok) (simp_all add: step_succeeds_def)
  then show ?thesis
    using True assms [OF a] by (simp add: WriteRegister_eq)
next
  case False
  then have "run h t (WriteReg reg d # ops) = (False, issued (imu t) @ [WriteReg reg d])"
    by (intro run_Cons_fail) (simp add: step_succeeds_def)
  then show ?thesis
    using False by (simp add: WriteRegister_eq obs_def)
qed


lemma step_accel:
  assumes "\<And>t'. after t [WriteReg (ACCEL_CONFIG h) (ACCEL_RANGE_16G h)] t' \<Longrightarrow> obs (K t') = run h t' ops"
  shows "obs (case ConfigAccelRange h (ACCEL_RANGE_16G h) t of
                (False, x) \<Rightarrow> (False, x) | (True, x) \<Rightarrow> K x) =
         run h t (WriteReg (ACCEL_CONFIG h) (ACCEL_RANGE_16G h) # ops)"
proof -
  let ?op = "WriteReg (ACCEL_CONFIG h) (ACCEL_RANGE_16G h)"
  obtain sc where sc: "accel_request h (ACCEL_RANGE_16G h) = Some sc"
    using accel_request_16G by blast
  show ?thesis
  proof (cases "write_ok (reply_at t 0)")
    case True
    let ?t = "snd (ConfigAccelRange h (ACCEL_RANGE_16G h) t)"
    have a: "after t [?op] ?t"
      using True by (simp add: after_def ConfigAccelRange_eq sc)
    have "run h t (?op # ops) = run h ?t ops"
      using True a by (intro run_Cons_ok) (simp_all add: step_succeeds_def)
    then show ?thesis
      using True assms [OF a] by (simp add: ConfigAccelRange_eq sc)
  next
    case False
    then have "run h t (?op # ops) = (False, issued (imu t) @ [?op])"
      by (intro run_Cons_fail) (simp add: step_succeeds_def)
    then show ?thesis
      using False by (simp add: ConfigAccelRange_eq sc obs_def)
  qed
qed

lemma step_gyro:
  assumes "\<And>t'. after t [WriteReg (GYRO_CONFIG h) (GYRO_RANGE_2000DPS h)] t' \<Longrightarrow> obs (K t') = run h t' ops"
  shows "obs (case ConfigGyroRange h (GYRO_RANGE_2000DPS h) t of
                (False, x) \<Rightarrow> (False, x) | (True, x) \<Rightarrow> K x) =
         run h t (WriteReg (GYRO_CONFIG h) (GYRO_RANGE_2000DPS h) # ops)"
proof -
  let ?op = "WriteReg (GYRO_CONFIG h) (GYRO_RANGE_2000DPS h)"
  obtain sc where sc: "gyro_request h (GYRO_RANGE_2000DPS h) = Some sc"
    using gyro_request_2000 by blast
  show ?thesis
  proof (cases "write_ok (reply_at t 0)")
    case True
    let ?t = "snd (ConfigGyroRange h (GYRO_RANGE_2000DPS h) t)"
    have a: "after t [?op] ?t"
      using True by (simp add: after_def ConfigGyroRange_eq sc)
    have "run h t (?op # ops) = run h ?t ops"
      using True a by (intro run_Cons_ok) (simp_all add: step_succeeds_def)
    then show ?thesis
      using True assms [OF a] by (simp add: ConfigGyroRange_eq sc)
  next
    case False
    then have "run h t (?op # ops) = (False, issued (imu t) @ [?op])"
      by (intro run_Cons_fail) (simp add: step_succeeds_def)
    then show ?thesis
      using False by (simp add: ConfigGyroRange_eq sc obs_def)
  qed
qed

lemma step_srd:
  assumes "\<And>t'. after t [WriteReg (SMPLRT_DIV h) d] t' \<Longrightarrow> obs (K t') = run h t' ops"
  shows "obs (case ConfigSrd h d t of (False, x) \<Rightarrow> (False, x) | (True, x) \<Rightarrow> K x) =
         run h t (WriteReg (SMPLRT_DIV h) d # ops)"
proof (cases "write_ok (reply_at t 0)")
  case True
  let ?t = "snd (ConfigSrd h d t)"
  have a: "after t [WriteReg (SMPLRT_DIV h) d] ?t"
    using True by (simp add: after_def ConfigSrd_eq)
  have "run h t (WriteReg (SMPLRT_DIV h) d # ops) = run h ?t ops"
    using True a by (intro run_Cons_ok) (simp_all add: step_succeeds_def)
  then show ?thesis
    using True assms [OF a] by (simp add: ConfigSrd_eq)
next
  case False
  then have "run h t (WriteReg (SMPLRT_DIV h) d # ops) = (False, issued (imu t) @ [WriteReg (SMPLRT_DIV h) d])"
    by (intro run_Cons_fail) (simp add: step_succeeds_def)
  then show ?thesis
    using False by (simp add: ConfigSrd_eq obs_def)
qed


lemma step_dlpf:
  assumes "\<And>t'. after t [WriteReg (ACCEL_CONFIG2 h) (DLPF_BANDWIDTH_184HZ h),
                           WriteReg (CONFIG h) (DLPF_BANDWIDTH_184HZ h)] t' \<Longrightarrow>
                obs (K t') = run h t' ops"
  shows "obs (case ConfigDlpfBandwidth h (DLPF_BANDWIDTH_184HZ h) t of
                (False, x) \<Rightarrow> (False, x) | (True, x) \<Rightarrow> K x) =
         run h t (WriteReg (ACCEL_CONFIG2 h) (DLPF_BANDWIDTH_184HZ h) #
                  WriteReg (CONFIG h) (DLPF_BANDWIDTH_184HZ h) # ops)"
proof -
  let ?d = "DLPF_BANDWIDTH_184HZ h"
  let ?op1 = "WriteReg (ACCEL_CONFIG2 h) ?d"
  let ?op2 = "WriteReg (CONFIG h) ?d"
  have d: "?d \<in> set (dlpf_enumerators h)"
    by (simp add: dlpf_enumerators_def)
  show ?thesis
  proof (cases "write_ok (reply_at t 0)")
    case w1: True
    let ?t1 = "t\<lparr>imu := issue ?op1 (imu t)\<rparr>"
    have a1: "after t [?op1] ?t1"
      by (simp add: after_def)
    have r1: "run h t (?op1 # ?op2 # ops) = run h ?t1 (?op2 # ops)"
      using w1 a1 by (intro run_Cons_ok) (simp_all add: step_succeeds_def)
    show ?thesis
    proof (cases "write_ok (reply_at t 1)")
      case True
      let ?t = "snd (ConfigDlpfBandwidth h ?d t)"
      have a: "after t [?op1, ?op2] ?t"
        using True w1 by (simp add: after_def ConfigDlpfBandwidth_eq d)
      then have a2: "after ?t1 [?op2] ?t"
        by (simp add: after_def)
      have "run h ?t1 (?op2 # ops) = run h ?t ops"
        using True a2 by (intro run_Cons_ok) (simp_all add: step_succeeds_def)
      then show ?thesis
        using True w1 r1 assms [OF a] by (simp add: ConfigDlpfBandwidth_eq d)
    next
      case False
      then have "run h ?t1 (?op2 # ops) = (False, issued (imu ?t1) @ [?op2])"
        by (intro run_Cons_fail) (simp add: step_succeeds_def)
      then show ?thesis
        using False w1 r1 by (simp add: ConfigDlpfBandwidth_eq d obs_def)
    qed
  next
    case False
    then have "run h t (?op1 # ?op2 # ops) = (False, issued (imu t) @ [?op1])"
      by (intro run_Cons_fail) (simp add: step_succeeds_def)
    then show ?thesis
      using False by (simp add: ConfigDlpfBandwidth_eq d obs_def)
  qed
qed

lemma read_one: "read_bytes r (Suc 0) = Some bs \<Longrightarrow> (hd bs = w) = (r = Ack [w])"
  by (cases r; cases bs) (auto simp add: read_bytes_def split: if_splits)

lemma step_whoami:
  assumes "\<And>t'. after t [ReadRegs (WHOAMI h) 1] t' \<Longrightarrow> obs (K t') = run h t' ops"
  shows "obs (case ReadRegisters (WHOAMI h) 1 t of
                (None, x) \<Rightarrow> (False, x)
              | (Some bs, x) \<Rightarrow>
                  (let x' = x\<lparr>who_am_i := hd bs\<rparr> in
                   if who_am_i x' \<noteq> WHOAMI_MPU9150 h then (False, x') else K x')) =
         run h t (ReadRegs (WHOAMI h) 1 # ops)"
proof (cases "reply_at t 0 = Ack [WHOAMI_MPU9150 h]")
  case True
  let ?t = "t\<lparr>imu := issue (ReadRegs (WHOAMI h) 1) (imu t), who_am_i := WHOAMI_MPU9150 h\<rparr>"
  have a: "after t [ReadRegs (WHOAMI h) 1] ?t"
    by (simp add: after_def)
  have "run h t (ReadRegs (WHOAMI h) 1 # ops) = run h ?t ops"
    using True a by (intro run_Cons_ok) (simp_all add: step_succeeds_def)
  then show ?thesis
    using True assms [OF a] by (simp add: ReadRegisters_eq read_bytes_def)
next
  case False
  then have r: "run h t (ReadRegs (WHOAMI h) 1 # ops) = (False, issued (imu t) @ [ReadRegs (WHOAMI h) 1])"
    by (intro run_Cons_fail) (simp add: step_succeeds_def)
  show ?thesis
  proof (cases "read_bytes (reply_at t 0) (Suc 0)")
    case None
    then show ?thesis
      using r by (simp add: ReadRegisters_eq obs_def)
  next
    case (Some bs)
    then have "hd bs \<noteq> WHOAMI_MPU9150 h"
      using False read_one by blast
    then show ?thesis
      using r Some by (simp add: ReadRegisters_eq obs_def)
  qed
qed

lemma step_mode:
  assumes "mag_mode t = m"
    and "\<And>t'. after t (if m = MAG_PASSTHROUGH h then [WriteReg reg d] else []) t' \<Longrightarrow>
           obs (K t') = run h t' ops"
  shows "obs (case (if mag_mode t = MAG_PASSTHROUGH h then WriteRegister reg d t else (True, t)) of
                (False, x) \<Rightarrow> (False, x) | (True, x) \<Rightarrow> K x) =
         run h t ((if m = MAG_PASSTHROUGH h then [WriteReg reg d] else []) @ ops)"
proof (cases "m = MAG_PASSTHROUGH h")
  case True
  then show ?thesis
    using assms by (simp add: step_write)
next
  case False
  then show ?thesis
    using assms after_nil [of t] by simp
qed


lemma step_done: "obs (True, t) = run h t []"
  by (simp add: obs_def run_def)

lemma Begin_body:
  "obs (case WriteRegister (PWR_MGMNT_1 h) (CLKSEL_PLL h) s4 of
        (False, s5) \<Rightarrow> (False, s5)
      | (True, s5) \<Rightarrow>
      (case ReadRegisters (WHOAMI h) 1 s5 of
        (None, s6) \<Rightarrow> (False, s6)
      | (Some bs, s6) \<Rightarrow>
      (let s7 = s6\<lparr>who_am_i := hd bs\<rparr> in
       if who_am_i s7 \<noteq> WHOAMI_MPU9150 h then (False, s7)
       else
      (case (if mag_mode s7 = MAG_PASSTHROUGH h
             then WriteRegister (INT_PIN_CFG h) (I2C_BYPASS_EN h) s7
             else (True, s7)) of
        (False, s8) \<Rightarrow> (False, s8)
      | (True, s8) \<Rightarrow>
      (case WriteRegister (PWR_MGMNT_1 h) (CLKSEL_PLL h) s8 of
        (False, s9) \<Rightarrow> (False, s9)
      | (True, s9) \<Rightarrow>
      (case ConfigAccelRange h (ACCEL_RANGE_16G h) s9 of
        (False, s10) \<Rightarrow> (False, s10)
      | (True, s10) \<Rightarrow>
      (case ConfigGyroRange h (GYRO_RANGE_2000DPS h) s10 of
        (False, s11) \<Rightarrow> (False, s11)
      | (True, s11) \<Rightarrow>
      (case ConfigDlpfBandwidth h (DLPF_BANDWIDTH_184HZ h) s11 of
        (False, s12) \<Rightarrow> (False, s12)
      | (True, s12) \<Rightarrow>
      (case ConfigSrd h 0 s12 of
        (False, s13) \<Rightarrow> (False, s13)
      | (True, s13) \<Rightarrow> (True, s13)))))))))) =
   run h s4 (begin_steps h (mag_mode s4))"
  unfolding begin_steps_def append.simps
  apply (rule step_write)
  apply (rule step_whoami)
  apply (rule step_mode)
   apply (simp add: after_def)
  apply (rule step_write)
  apply (rule step_accel)
  apply (rule step_gyro)
  apply (rule step_dlpf)
  apply (rule step_srd)
  apply (rule step_done)
  done


text \<open>
  \<open>Begin\<close> as a whole: the bus start, the reset write (its outcome is not looked at) and
  the delay, followed by the run of the checked steps.
\<close>

lemma Begin_run:
  "obs (Begin h mode s) =
     (fst (until_first_failure (step_succeeds h) (respond (imu s)) (length (issued (imu s)) + 3)
            (begin_steps h mode)),
      issued (imu s) @ [BusBegin, WriteReg (PWR_MGMNT_1 h) (H_RESET h), Delay 100] @
      snd (until_first_failure (step_succeeds h) (respond (imu s)) (length (issued (imu s)) + 3)
            (begin_steps h mode)))"
proof -
  define s4 where "s4 = delay 100 (snd (WriteRegister (PWR_MGMNT_1 h) (H_RESET h)
      (s\<lparr>mag_mode := mode, imu := imu_Begin (imu (s\<lparr>mag_mode := mode\<rparr>))\<rparr>)))"
  have s4: "mag_mode s4 = mode" "respond (imu s4) = respond (imu s)"
    "issued (imu s4) = issued (imu s) @ [BusBegin, WriteReg (PWR_MGMNT_1 h) (H_RESET h), Delay 100]"
    by (simp_all add: s4_def delay_def WriteRegister_eq imu_Begin_def)
  have "obs (Begin h mode s) = run h s4 (begin_steps h (mag_mode s4))"
    unfolding Begin_def
    apply (subst Let_def, subst Let_def, subst Let_def, subst Let_def)
    unfolding s4_def [symmetric]
    by (rule Begin_body)
  then show ?thesis
    by (simp add: run_def s4 eval_nat_numeral)
qed

lemma example_issued [simp]: "issued (imu (example_object rs)) = []"
  by (simp add: example_object_def)

lemma example_respond [simp]: "respond (imu (example_object rs)) = rs"
  by (simp add: example_object_def)

text \<open>
  Claim C2, as stated, fails: a hardware reset write that is not acknowledged does not
  make \<open>Begin\<close> abort. In front of a device that refuses exactly the reset write (the
  operation at position 1) and acknowledges everything else, \<open>Begin\<close> returns success
  and issues every operation of the sequence.
\<close>

theorem Begin_ignores_failed_reset_counterexample:
  "\<not> write_ok (respond (imu (example_object reset_nack_device)) 1) \<and>
   fst (Begin example_header 0 (example_object reset_nack_device)) \<and>
   issued (imu (snd (Begin example_header 0 (example_object reset_nack_device)))) =
     [BusBegin, WriteReg 0x6B 0x80, Delay 100, WriteReg 0x6B 0x01, ReadRegs 0x75 1,
      WriteReg 0x37 0x02, WriteReg 0x6B 0x01, WriteReg 0x1C 0x18, WriteReg 0x1B 0x18,
      WriteReg 0x1D 0x01, WriteReg 0x1A 0x01, WriteReg 0x19 0]"
  using Begin_run [of example_header 0 "example_object reset_nack_device"]
  by (simp add: obs_def begin_steps_def step_succeeds_def write_ok_def reset_nack_device_def
      example_header_def)

text \<open>
  Claim C2, amended. \<open>Begin\<close> starts the bus, issues the hardware reset write without
  looking at its outcome and waits 100 ms. It then performs, in this order, the clock
  source select, the identity read and its verification, the pass-through enable (in
  pass-through mode only), the clock source re-select, the accelerometer range 16G, the
  gyroscope range 2000DPS, the bandwidth 184HZ (two register writes) and the sample
  rate divider 0. At the first of these steps that fails (a write that is not
  acknowledged, an identity read that fails or delivers another identity byte) \<open>Begin\<close>
  returns failure and issues no further operation; when none fails it returns success.
\<close>

theorem Begin_aborts_at_first_failure_after_reset:
  "fst (Begin h mode s) =
     fst (until_first_failure (step_succeeds h) (respond (imu s)) (length (issued (imu s)) + 3)
            (begin_steps h mode)) \<and>
   issued (imu (snd (Begin h mode s))) =
     issued (imu s) @ [BusBegin, WriteReg (PWR_MGMNT_1 h) (H_RESET h), Delay 100] @
     snd (until_first_failure (step_succeeds h) (respond (imu s)) (length (issued (imu s)) + 3)
            (begin_steps h mode))"
  using Begin_run [of h mode s] by (simp add: obs_def)

text \<open>
  In front of a device whose identity byte is not the expected one, \<open>Begin\<close> fails right
  after the identity read; in front of a device that acknowledges everything it succeeds
  after the whole sequence, here in a mode other than pass-through.
\<close>

theorem Begin_aborts_at_first_failure_after_reset_witness:
  "\<not> fst (Begin example_header 0 (example_object wrong_identity_device)) \<and>
   issued (imu (snd (Begin example_header 0 (example_object wrong_identity_device)))) =
     [BusBegin, WriteReg 0x6B 0x80, Delay 100, WriteReg 0x6B 0x01, ReadRegs 0x75 1] \<and>
   fst (Begin example_header 1 (example_object good_device)) \<and>
   issued (imu (snd (Begin example_header 1 (example_object good_device)))) =
     [BusBegin, WriteReg 0x6B 0x80, Delay 100, WriteReg 0x6B 0x01, ReadRegs 0x75 1,
      WriteReg 0x6B 0x01, WriteReg 0x1C 0x18, WriteReg 0x1B 0x18,
      WriteReg 0x1D 0x01, WriteReg 0x1A 0x01, WriteReg 0x19 0]"
  using Begin_aborts_at_first_failure_after_reset
      [of example_header 0 "example_object wrong_identity_device"]
    Begin_aborts_at_first_failure_after_reset
      [of example_header 1 "example_object good_device"]
  by (simp add: begin_steps_def step_succeeds_def write_ok_def wrong_identity_device_def
      good_device_def example_header_def)

subsection \<open>The FIFO\<close>

lemma length2: "length cb = 2 \<Longrightarrow> \<exists>hi lo. cb = [hi, lo]"
  by (cases cb; cases "tl cb") auto

lemma ReadFifo_null: "ReadFifo h None len s = Some (- 1, s, None)"
  by (simp add: ReadFifo_def)

lemma ReadFifo_status_fails:
  "read_bytes (reply_at s 0) 1 = None \<Longrightarrow>
   \<exists>s'. ReadFifo h (Some buf) len s = Some (- 1, s', Some buf)"
  by (simp add: ReadFifo_def ReadRegisters_eq)

lemma ReadFifo_count_fails:
  "read_bytes (reply_at s 0) 1 = Some st \<Longrightarrow> read_bytes (reply_at s 1) 2 = None \<Longrightarrow>
   \<exists>s'. ReadFifo h (Some buf) len s = Some (- 1, s', Some buf)"
  by (simp add: ReadFifo_def ReadRegisters_eq Let_def reply_at_def)

lemma ReadFifo_empty:
  "read_bytes (reply_at s 0) 1 = Some st \<Longrightarrow> reply_at s 1 = Ack [hi, lo] \<Longrightarrow>
   \<not> 0 < be_s16 hi lo \<Longrightarrow>
   \<exists>s'. ReadFifo h (Some buf) len s = Some (0, s', Some buf)"
  by (simp add: ReadFifo_def ReadRegisters_eq Let_def reply_at_def read_bytes_def sint_unpack16)



lemmas ReadFifo_simps =
  ReadFifo_def ReadRegisters_eq ReadFifo_burst_eq Let_def reply_at_def
  sint_unpack16 unat_of_nat_8 add_2_eq_Suc'

lemma ReadFifo_burst_fails:
  assumes "read_bytes (reply_at s 0) 1 = Some st" "reply_at s 1 = Ack [hi, lo]"
   "0 < be_s16 hi lo"
   "read_bytes (reply_at s 2) (min len (nat (be_s16 hi lo)) mod 256) = None"
  shows "\<exists>s'. ReadFifo h (Some buf) len s = Some (- 1, s', Some buf)"
proof (cases "len < nat (be_s16 hi lo)")
  case True
  then have m: "min len (nat (be_s16 hi lo)) = len"
    by simp
  show ?thesis
    using assms(1-3) assms(4) [unfolded m] True
    by (simp add: ReadFifo_simps read_bytes_def [of "Ack [hi, lo]"])
next
  case False
  then have m: "min len (nat (be_s16 hi lo)) = nat (be_s16 hi lo)"
    by simp
  show ?thesis
    using assms(1-3) assms(4) [unfolded m] False
    by (simp add: ReadFifo_simps read_bytes_def [of "Ack [hi, lo]"])
qed

lemma ReadFifo_drains:
  assumes "read_bytes (reply_at s 0) 1 = Some st" "reply_at s 1 = Ack [hi, lo]"
   "0 < be_s16 hi lo"
   "read_bytes (reply_at s 2) (min len (nat (be_s16 hi lo)) mod 256) = Some bs"
   "len \<le> length buf"
  shows "\<exists>s' buf'. ReadFifo h (Some buf) len s = Some (of_nat (min len (nat (be_s16 hi lo))), s', Some buf')"
proof -
  have "length bs = min len (nat (be_s16 hi lo)) mod 256"
    using read_bytes_Some [OF assms(4)] by simp
  also have "\<dots> \<le> min len (nat (be_s16 hi lo))"
    by (rule mod_less_eq_dividend)
  also have "\<dots> \<le> length buf"
    using assms(5) by simp
  finally have sb: "store_bytes buf bs = Some (bs @ drop (length bs) buf)"
    by (simp add: store_bytes_def)
  show ?thesis
  proof (cases "len < nat (be_s16 hi lo)")
    case True
    then have m: "min len (nat (be_s16 hi lo)) = len"
      by simp
    show ?thesis
      unfolding m
      using assms(1-3) assms(4) [unfolded m] True sb
      by (simp add: ReadFifo_simps read_bytes_def [of "Ack [hi, lo]"])
  next
    case False
    then have m: "min len (nat (be_s16 hi lo)) = nat (be_s16 hi lo)"
      by simp
    show ?thesis
      unfolding m
      using assms(1-3) assms(4) [unfolded m] False sb
      by (simp add: ReadFifo_simps read_bytes_def [of "Ack [hi, lo]"])
  qed
qed



text \<open>
  Claim C7. With a null buffer pointer \<open>ReadFifo\<close> returns -1. With a buffer of at least
  \<open>len\<close> bytes it returns a negative value exactly when one of its transport reads
  fails, and then -1; otherwise it returns the smaller of \<open>len\<close> and the FIFO count when
  that count is positive, so never more than \<open>len\<close>, and zero when the count is zero.
  The FIFO count is the 16-bit count that the device reports, read as the signed
  value that the driver keeps in \<^verbatim>\<open>fifo_count_\<close>.
\<close>

theorem ReadFifo_return_value:
  "ReadFifo h None len s = Some (- 1, s, None) \<and>
   (len \<le> length buf \<longrightarrow>
     (\<exists>r s' d. ReadFifo h (Some buf) len s = Some (r, s', d) \<and>
        (sint r < 0 \<longleftrightarrow> transport_read_fails len s) \<and>
        (transport_read_fails len s \<longrightarrow> sint r = - 1) \<and>
        (\<not> transport_read_fails len s \<longrightarrow>
           sint r = (if 0 < reported_count (reply_at s 1)
                     then min (int len) (reported_count (reply_at s 1)) else 0))))"
proof (intro conjI impI)
  show "ReadFifo h None len s = Some (- 1, s, None)"
    by (rule ReadFifo_null)
next
  assume len: "len \<le> length buf"
  let ?P = "\<lambda>r :: 16 word. (sint r < 0 \<longleftrightarrow> transport_read_fails len s) \<and>
        (transport_read_fails len s \<longrightarrow> sint r = - 1) \<and>
        (\<not> transport_read_fails len s \<longrightarrow>
           sint r = (if 0 < reported_count (reply_at s 1)
                     then min (int len) (reported_count (reply_at s 1)) else 0))"
  have failing: "?P (- 1)" if "transport_read_fails len s"
    using that by simp
  show "\<exists>r s' d. ReadFifo h (Some buf) len s = Some (r, s', d) \<and> ?P r"
  proof (cases "read_bytes (reply_at s 0) 1")
    case None
    then have "transport_read_fails len s"
      by (simp add: transport_read_fails_def)
    then show ?thesis
      using ReadFifo_status_fails [OF None, of h buf len] failing by blast
  next
    case st: (Some st)
    show ?thesis
    proof (cases "read_bytes (reply_at s 1) 2")
      case None
      then have "transport_read_fails len s"
        by (simp add: transport_read_fails_def)
      then show ?thesis
        using ReadFifo_count_fails [OF st None, of h buf len] failing by blast
    next
      case (Some cb)
      then obtain hi lo where r1: "reply_at s 1 = Ack [hi, lo]"
        using read_bytes_Some [OF Some] length2 [of cb] by auto
      then have cnt: "reported_count (reply_at s 1) = be_s16 hi lo"
        by (simp add: reported_count_def)
      show ?thesis
      proof (cases "0 < be_s16 hi lo")
        case False
        then have "\<not> transport_read_fails len s"
          using st Some cnt by (simp add: transport_read_fails_def)
        then have "?P 0"
          using False cnt by simp
        then show ?thesis
          using ReadFifo_empty [OF st r1 False, of h buf len] by blast
      next
        case True
        let ?n = "min len (nat (be_s16 hi lo))"
        show ?thesis
        proof (cases "read_bytes (reply_at s 2) (?n mod 256)")
          case None
          then have "transport_read_fails len s"
            using True cnt by (simp add: transport_read_fails_def burst_count_def)
          then show ?thesis
            using ReadFifo_burst_fails [OF st r1 True None, of h buf] failing by blast
        next
          case (Some bs)
          then have nf: "\<not> transport_read_fails len s"
            using st \<open>read_bytes (reply_at s 1) 2 = Some cb\<close>
            using cnt by (simp add: transport_read_fails_def burst_count_def)
          have "?n < 32768"
            using be_s16_bounds(2) [of hi lo] True by simp
          then have "sint (of_nat ?n :: 16 word) = int ?n"
            by (rule sint_of_nat_small)
          also have "\<dots> = min (int len) (be_s16 hi lo)"
            using True by simp
          finally have eq: "sint (of_nat ?n :: 16 word) = min (int len) (be_s16 hi lo)" .
          have "?P (of_nat ?n)"
            unfolding eq using nf True cnt by simp
          then show ?thesis
            using ReadFifo_drains [OF st r1 True Some len, of h] by blast
        qed
      qed
    qed
  qed
qed


text \<open>
  The device \<open>fifo_device\<close> reports 512 bytes in its FIFO; with a buffer of four bytes
  no read fails and the value returned is 4, the length of the buffer.
\<close>

theorem ReadFifo_return_value_witness:
  "4 \<le> length [0, 0, 0, 0 :: 8 word] \<and>
   \<not> transport_read_fails 4 (example_object fifo_device) \<and>
   reported_count (reply_at (example_object fifo_device) 1) = 512 \<and>
   (\<exists>r s' d. ReadFifo example_header (Some [0, 0, 0, 0]) 4 (example_object fifo_device) =
        Some (r, s', d) \<and> sint r = 4)"
proof -
  have l: "4 \<le> length [0, 0, 0, 0 :: 8 word]"
    by simp
  have c: "reported_count (reply_at (example_object fifo_device) 1) = 512"
    by (simp add: fifo_device_def reported_count_def be_s16_def)
  have f: "\<not> transport_read_fails 4 (example_object fifo_device)"
    by (simp add: transport_read_fails_def burst_count_def fifo_device_def reported_count_def
        be_s16_def read_bytes_def)
  show ?thesis
    using ReadFifo_return_value
      [of example_header 4 "example_object fifo_device" "[0, 0, 0, 0]"] l c f
    by auto
qed

text \<open>
  The loop of \<open>ProcessFifoData\<close> runs while \<open>i < len\<close> in steps of 12: whenever it
  returns, it has decoded one record for every started group of 12 bytes.
\<close>

lemma ProcessFifoData_loop_count:
  "ProcessFifoData_loop h data len i j s out = Some (j', s', out') \<Longrightarrow>
   j' = j + (len + 11 - i) div 12"
proof (induction h data len i j s out rule: ProcessFifoData_loop.induct)
  case (1 h data len i j s out)
  show ?case
  proof (cases "i < len")
    case False
    have "ProcessFifoData_loop h data len i j s out = Some (j, s, out)"
      using False by (subst ProcessFifoData_loop.simps) simp
    then show ?thesis
      using "1.prems" False by simp
  next
    case True
    have u: "ProcessFifoData_loop h data len i j s out =
               (case ProcessFifoData_record h data i j s out of
                  None \<Rightarrow> None
                | Some (s1, out1) \<Rightarrow> ProcessFifoData_loop h data len (i + 12) (j + 1) s1 out1)"
      using True by (subst ProcessFifoData_loop.simps) simp
    obtain s1 out1 where
      r: "ProcessFifoData_record h data i j s out = Some (s1, out1)" and
      l: "ProcessFifoData_loop h data len (i + 12) (j + 1) s1 out1 = Some (j', s', out')"
      using "1.prems" unfolding u
      by (cases "ProcessFifoData_record h data i j s out") auto
    have "j' = j + 1 + (len + 11 - (i + 12)) div 12"
      using "1.IH" [OF True r refl l] by simp
    also have "len + 11 - (i + 12) = len - i - 1"
      by simp
    also have "j + 1 + (len - i - 1) div 12 = j + (len - i - 1 + 12) div 12"
      by simp
    also have "len - i - 1 + 12 = len + 11 - i"
      using True by simp
    finally show ?thesis .
  qed
qed

text \<open>
  Claim C1 does not hold of the code. With \<open>len = 13\<close> the loop runs for \<open>i = 0\<close> and for
  \<open>i = 12\<close>: in a buffer of 24 bytes it decodes a second record from the bytes 12 to 23,
  of which only byte 12 is within \<open>len\<close>, and returns 2, where the claim has one record,
  the first 12 bytes and the result 1; in a buffer of exactly 13 bytes the second pass
  reads outside the buffer (the result \<open>None\<close> of the model).
\<close>

theorem ProcessFifoData_partial_record_is_decoded:
  "map_option fst
     (ProcessFifoData example_header (Some fifo_bytes) 13
        (Some [0, 0]) (Some [0, 0]) (Some [0, 0]) (Some [0, 0]) (Some [0, 0]) (Some [0, 0])
        (example_object no_device)) = Some 2 \<and>
   map_option (snd \<circ> snd)
     (ProcessFifoData example_header (Some fifo_bytes) 13
        (Some [0, 0]) (Some [0, 0]) (Some [0, 0]) (Some [0, 0]) (Some [0, 0]) (Some [0, 0])
        (example_object no_device)) =
     Some (Some \<lparr>gx = [1 / 5, 11 / 25], gy = [4 / 25, 2 / 5], gz = [- 6 / 25, - 12 / 25],
                 ax = [20, 80], ay = [10, 70], az = [- 30, - 90]\<rparr>) \<and>
   ProcessFifoData example_header (Some (take 13 fifo_bytes)) 13
     (Some [0, 0]) (Some [0, 0]) (Some [0, 0]) (Some [0, 0]) (Some [0, 0]) (Some [0, 0])
     (example_object no_device) = None"
  by (simp add: ProcessFifoData_def ProcessFifoData_loop.simps ProcessFifoData_record_def
      fetch_def store_def fifo_bytes_def example_object_def example_header_def Let_def
      to_float_def unpack16_def)

end
